theory Spec2Isabelle
  imports Complex_Main "HOL-Library.Multiset"
begin

section \<open>Data model of reveal-sliding.directive.ts\<close>

text \<open>
  The directive emulates a swipe on an \<open>ion-item-sliding\<close> component: a click on the
  element marked \<open>appRevealSlidingButton\<close> starts a chain of five timed callbacks, each
  of which builds one touch or mouse event and dispatches it at the host element.

  TypeScript \<open>number\<close> values that are coordinates are modelled as exact reals; the
  iteration index is an integer. DOM nodes are identified by natural numbers.
\<close>

datatype SwipeDirection = toLeft | toRight

type_synonym element = nat

text \<open>Values that can be thrown: the \<open>Error\<close> of \<open>selfCheck\<close>, or whatever a browser
  API raises (for instance \<open>TypeError: Illegal constructor\<close> from \<open>new Touch\<close>).\<close>

datatype exn = Error string | TypeError string

datatype log = console_warn string | console_error exn

text \<open>\<open>IonItemOptions\<close>: only the property \<open>side\<close> is read; \<open>None\<close> is \<open>undefined\<close>.\<close>

record IonItemOptions =
  side :: "string option"

text \<open>The part of \<open>getBoundingClientRect()\<close> the directive reads.\<close>

record DOMRect =
  rect_top :: real
  rect_left :: real
  rect_right :: real

text \<open>
  The browser converts a number given for a WebIDL \<open>long\<close> parameter with \<open>ToInt32\<close>:
  the number is truncated toward zero and reduced modulo \<open>2^32\<close> into the signed 32-bit
  range. The \<open>identifier\<close> of \<open>new Touch\<close> and the \<open>detail\<close>, screen and client
  coordinate parameters of \<open>initMouseEvent\<close> are \<open>long\<close>; the coordinates, radii, angle
  and force of \<open>new Touch\<close> are floating-point members and are kept as they are.
\<close>

definition ToInt32 :: "real \<Rightarrow> int" where
  "ToInt32 x =
     (let n = (if x < 0 then - \<lfloor>- x\<rfloor> else \<lfloor>x\<rfloor>);
          m = n mod 2 ^ 32
      in if m \<ge> 2 ^ 31 then m - 2 ^ 32 else m)"

text \<open>The \<open>Touch\<close> object that \<open>new Touch\<close> builds from its dictionary.\<close>

record Touch =
  touch_identifier :: int
  target :: element
  clientX :: real
  clientY :: real
  radiusX :: real
  radiusY :: real
  rotationAngle :: real
  force :: real

text \<open>The event that \<open>new TouchEvent\<close> builds from the event type and its dictionary.\<close>

record TouchEvent =
  touch_type :: string
  cancelable :: bool
  bubbles :: bool
  touches :: "Touch list"
  targetTouches :: "Touch list"
  changedTouches :: "Touch list"
  shiftKey :: bool

text \<open>The mouse event as \<open>initMouseEvent\<close> initialises it, its members in the order of
  the arguments (the view argument, always \<open>window\<close>, is left out;
  \<open>relatedTarget = None\<close> is \<open>null\<close>). The \<open>long\<close> members are integers.\<close>

record MouseEvent =
  mouse_type :: string
  mouse_canBubble :: bool
  mouse_cancelable :: bool
  mouse_detail :: int
  mouse_screenX :: int
  mouse_screenY :: int
  mouse_clientX :: int
  mouse_clientY :: int
  mouse_ctrlKey :: bool
  mouse_altKey :: bool
  mouse_shiftKey :: bool
  mouse_metaKey :: bool
  mouse_button :: int
  mouse_relatedTarget :: "element option"

datatype event = TouchEv TouchEvent | MouseEv MouseEvent

text \<open>A pending \<open>setTimeout\<close> callback. The only closure the directive ever schedules is
  the one of \<open>sendEvents\<close>, so a timer is the \<open>index\<close> it captured and its delay.\<close>

record timer =
  captured_index :: int
  delay :: nat

text \<open>The browser as the code finds it: whether the globals \<open>Touch\<close> and \<open>TouchEvent\<close>
  are defined.\<close>

record platform =
  Touch_defined :: bool
  TouchEvent_defined :: bool

text \<open>What the browser answers during one timer callback: the bounding box of the host
  element, the clock, and for every API call that can raise, the exception it raises
  (\<open>None\<close>: the call succeeds).\<close>

record page =
  getBoundingClientRect :: DOMRect
  Date_now :: nat
  new_Touch :: "exn option"
  new_TouchEvent :: "exn option"
  createEvent :: "exn option"
  initMouseEvent :: "exn option"
  dispatchEvent :: "exn option"

text \<open>
  The state: the fields of \<open>RevealSlidingDirective\<close> (\<open>itemSliding\<close>,
  \<open>itemOptionsList\<close>, \<open>revealButton\<close>, \<open>swipeDirection\<close>, and \<open>el\<close> as its
  \<open>nativeElement\<close> with the answer of its \<open>querySelector\<close>), and the effects the
  directive has on the page: the listeners registered through \<open>renderer.listen\<close> (all
  with the closure \<open>() => this.sendEvents(0)\<close>), the pending timers in registration
  order, the events dispatched with the element they were dispatched at, the console, and
  the exceptions that escaped a timer callback.
\<close>

record state =
  itemSliding :: "element option"
  itemOptionsList :: "IonItemOptions list"
  revealButton :: "element option"
  swipeDirection :: "SwipeDirection option"
  nativeElement :: element
  querySelector :: "string \<Rightarrow> element option"
  listeners :: "(element \<times> string) list"
  timers :: "timer list"
  dispatched :: "(element \<times> event) list"
  console :: "log list"
  uncaught :: "exn list"

text \<open>A function that can throw returns \<open>Inl (e, s)\<close>: the exception and the state at
  the throw; \<open>Inr s\<close> is a normal return.\<close>

type_synonym result = "(exn \<times> state) + state"

section \<open>Setup: ngAfterViewInit, selfCheck, init\<close>

definition selfCheck :: "state \<Rightarrow> result" where
  "selfCheck s =
     (if itemSliding s = None
      then Inl (Error ''RevealSlidingDirective: Missing ion-item-sliding node'', s)
      else
        let s1 = (if length (itemOptionsList s) > 1
                  then s\<lparr>console := console s @
                         [console_warn ''RevealSlidingDirective: Processing only a one ion-item-options element'']\<rparr>
                  else s);
            s2 = (if length (itemOptionsList s1) = 0
                  then s1\<lparr>console := console s1 @
                         [console_warn ''RevealSlidingDirective: Missing ion-item-options element'']\<rparr>
                  else s1)
        in Inr s2)"

text \<open>\<open>QueryList.first\<close>: the first element, \<open>undefined\<close> when the list is empty.\<close>

definition first :: "'a list \<Rightarrow> 'a option" where
  "first xs = (case xs of [] \<Rightarrow> None | x # _ \<Rightarrow> Some x)"

definition init :: "state \<Rightarrow> state" where
  "init s =
     (let itemOption = first (itemOptionsList s);
          s1 = (case itemOption of
                  Some opt \<Rightarrow>
                    s\<lparr>swipeDirection :=
                        Some (if side opt = Some ''start'' then toRight else toLeft)\<rparr>
                | None \<Rightarrow> s\<lparr>swipeDirection := Some toLeft\<rparr>);
          s2 = s1\<lparr>revealButton := querySelector s1 ''ion-item *[appRevealSlidingButton]''\<rparr>
      in case revealButton s2 of
           None \<Rightarrow>
             s2\<lparr>console := console s2 @
                  [console_warn ''RevealSlidingDirective: appRevealSlidingButton attribute is missed'']\<rparr>
         | Some button \<Rightarrow> s2\<lparr>listeners := listeners s2 @ [(button, ''click'')]\<rparr>)"

definition ngAfterViewInit :: "state \<Rightarrow> result" where
  "ngAfterViewInit s =
     (case selfCheck s of
        Inl x \<Rightarrow> Inl x
      | Inr s' \<Rightarrow> Inr (init s'))"

section \<open>The event synthesizer\<close>

definition supportTouchEvent :: "platform \<Rightarrow> bool" where
  "supportTouchEvent p = (Touch_defined p \<and> TouchEvent_defined p)"

text \<open>\<open>sendTouchEvent\<close>: the three calls are inside one \<open>try\<close>; whichever throws, the
  \<open>catch\<close> logs the exception with \<open>console.error\<close> and the function returns
  normally, having dispatched nothing.\<close>

definition sendTouchEvent ::
  "page \<Rightarrow> element \<Rightarrow> string \<Rightarrow> real \<Rightarrow> real \<Rightarrow> state \<Rightarrow> result" where
  "sendTouchEvent pg element eventType x y s =
     (case new_Touch pg of
        Some e \<Rightarrow> Inr (s\<lparr>console := console s @ [console_error e]\<rparr>)
      | None \<Rightarrow>
          let touch = \<lparr>touch_identifier = ToInt32 (real (Date_now pg)), target = element,
                       clientX = x, clientY = y,
                       radiusX = 2.5, radiusY = 2.5, rotationAngle = 10, force = 0.5\<rparr>;
              touchList = [touch]
          in case new_TouchEvent pg of
               Some e \<Rightarrow> Inr (s\<lparr>console := console s @ [console_error e]\<rparr>)
             | None \<Rightarrow>
                 let touchEvent = \<lparr>touch_type = eventType, cancelable = True, bubbles = True,
                                   touches = touchList, targetTouches = [],
                                   changedTouches = touchList, shiftKey = True\<rparr>
                 in case dispatchEvent pg of
                      Some e \<Rightarrow> Inr (s\<lparr>console := console s @ [console_error e]\<rparr>)
                    | None \<Rightarrow>
                        Inr (s\<lparr>dispatched := dispatched s @ [(element, TouchEv touchEvent)]\<rparr>))"

text \<open>\<open>sendMouseEvent\<close> has no \<open>try\<close>: an exception of \<open>document.createEvent\<close>,
  \<open>initMouseEvent\<close> or \<open>dispatchEvent\<close> leaves the function, and nothing was written
  before it. \<open>initMouseEvent\<close> takes its screen and client coordinates as \<open>long\<close>, so
  the event carries \<open>ToInt32\<close> of the numbers passed.\<close>

definition sendMouseEvent ::
  "page \<Rightarrow> element \<Rightarrow> string \<Rightarrow> real \<Rightarrow> real \<Rightarrow> state \<Rightarrow> result" where
  "sendMouseEvent pg element eventType x y s =
     (case createEvent pg of
        Some e \<Rightarrow> Inl (e, s)
      | None \<Rightarrow>
          (case initMouseEvent pg of
             Some e \<Rightarrow> Inl (e, s)
           | None \<Rightarrow>
               let event = \<lparr>mouse_type = eventType, mouse_canBubble = True,
                            mouse_cancelable = True, mouse_detail = 0,
                            mouse_screenX = ToInt32 0, mouse_screenY = ToInt32 0,
                            mouse_clientX = ToInt32 x, mouse_clientY = ToInt32 y,
                            mouse_ctrlKey = False, mouse_altKey = False,
                            mouse_shiftKey = False, mouse_metaKey = False,
                            mouse_button = 0, mouse_relatedTarget = None\<rparr>
               in case dispatchEvent pg of
                    Some e \<Rightarrow> Inl (e, s)
                  | None \<Rightarrow>
                      Inr (s\<lparr>dispatched := dispatched s @ [(element, MouseEv event)]\<rparr>)))"

definition mouseEvents :: "string list" where
  "mouseEvents = [''mousedown'', ''mouseup'', ''mousemove'']"

definition touchEvents :: "string list" where
  "touchEvents = [''touchstart'', ''touchend'', ''touchmove'']"

text \<open>\<open>sendEventsDispatcher\<close>: \<open>supportTouchEvent()\<close> selects both the event-type triple
  and the dispatcher; the bounding box is read from the page at every call.\<close>

definition sendEventsDispatcher :: "platform \<Rightarrow> page \<Rightarrow> int \<Rightarrow> int \<Rightarrow> state \<Rightarrow> result" where
  "sendEventsDispatcher p pg index maxIterations s =
     (let eventTypes = (if supportTouchEvent p then touchEvents else mouseEvents);
          dispatcher = (if supportTouchEvent p then sendTouchEvent else sendMouseEvent);
          el = nativeElement s;
          rect = getBoundingClientRect pg;
          xStep = 50;
          yOffset = 10;
          y = rect_top rect + yOffset;
          x0 = rect_right rect - of_int index * xStep;
          x = (if swipeDirection s = Some toRight
               then rect_left rect + of_int index * xStep
               else x0)
      in if index = 0 then dispatcher pg el (eventTypes ! 0) x y s
         else if index = maxIterations - 1 then dispatcher pg el (eventTypes ! 1) x y s
         else dispatcher pg el (eventTypes ! 2) x y s)"

section \<open>The event sequencer\<close>

definition maxIterations :: int where
  "maxIterations = 5"

text \<open>\<open>sendEvents\<close> returns at once: it either stops or registers the timer whose
  callback is \<open>timeoutCallback\<close> below.\<close>

definition sendEvents :: "int \<Rightarrow> state \<Rightarrow> state" where
  "sendEvents index s =
     (if index = maxIterations then s
      else s\<lparr>timers := timers s @ [\<lparr>captured_index = index, delay = 10\<rparr>]\<rparr>)"

text \<open>The arrow function given to \<open>setTimeout\<close>: an exception of the dispatcher leaves
  it before \<open>sendEvents(++index)\<close>.\<close>

definition timeoutCallback :: "platform \<Rightarrow> page \<Rightarrow> int \<Rightarrow> state \<Rightarrow> result" where
  "timeoutCallback p pg index s =
     (case sendEventsDispatcher p pg index maxIterations s of
        Inl x \<Rightarrow> Inl x
      | Inr s' \<Rightarrow> Inr (sendEvents (index + 1) s'))"

section \<open>The event loop\<close>

text \<open>
  The page moves by a trigger click reaching an element, or by the oldest pending timer
  firing (all timers have the same delay, so they fire in registration order). A click
  runs the handler \<open>() => this.sendEvents(0)\<close> of every click listener on the element; an
  exception that leaves a timer callback is reported and ends that callback.
\<close>

datatype action = Click element | Timeout page

definition click :: "element \<Rightarrow> state \<Rightarrow> state" where
  "click e s =
     fold (\<lambda>l s'. sendEvents 0 s') (filter (\<lambda>l. l = (e, ''click'')) (listeners s)) s"

fun step :: "platform \<Rightarrow> action \<Rightarrow> state \<Rightarrow> state" where
  "step p (Click e) s = click e s"
| "step p (Timeout pg) s =
     (case timers s of
        [] \<Rightarrow> s
      | t # ts \<Rightarrow>
          (case timeoutCallback p pg (captured_index t) (s\<lparr>timers := ts\<rparr>) of
             Inl (e, s') \<Rightarrow> s'\<lparr>uncaught := uncaught s' @ [e]\<rparr>
           | Inr s' \<Rightarrow> s'))"

definition exec :: "platform \<Rightarrow> action list \<Rightarrow> state \<Rightarrow> state" where
  "exec p as s = fold (step p) as s"

section \<open>Auxiliary notions for stating the properties\<close>

text \<open>The definitions of this section are not code of the directive: they name what the
  properties below talk about, and each is tied to the code by a lemma.\<close>

text \<open>The first exception that the active strategy meets on a page, if any: for the touch
  strategy the calls are \<open>new Touch\<close>, \<open>new TouchEvent\<close>, \<open>dispatchEvent\<close>, for the
  mouse strategy \<open>createEvent\<close>, \<open>initMouseEvent\<close>, \<open>dispatchEvent\<close>.\<close>

definition synthFailure :: "platform \<Rightarrow> page \<Rightarrow> exn option" where
  "synthFailure p pg =
     (if supportTouchEvent p
      then (case new_Touch pg of Some e \<Rightarrow> Some e
            | None \<Rightarrow> (case new_TouchEvent pg of Some e \<Rightarrow> Some e | None \<Rightarrow> dispatchEvent pg))
      else (case createEvent pg of Some e \<Rightarrow> Some e
            | None \<Rightarrow> (case initMouseEvent pg of Some e \<Rightarrow> Some e | None \<Rightarrow> dispatchEvent pg)))"

text \<open>The type (kind) of an event, and the client coordinates it carries: those of its
  contact points for a touch event, the integer \<open>clientX\<close>, \<open>clientY\<close> of a mouse
  event.\<close>

definition eventType :: "event \<Rightarrow> string" where
  "eventType ev = (case ev of TouchEv t \<Rightarrow> touch_type t | MouseEv m \<Rightarrow> mouse_type m)"


text \<open>The active event-type triple, the entry of it that step \<open>i\<close> uses, and the
  horizontal coordinate of step \<open>i\<close>.\<close>

definition eventTypes :: "platform \<Rightarrow> string list" where
  "eventTypes p = (if supportTouchEvent p then touchEvents else mouseEvents)"

definition stepKind :: "int \<Rightarrow> nat" where
  "stepKind i = (if i = 0 then 0 else if i = maxIterations - 1 then 1 else 2)"

definition xAt :: "SwipeDirection option \<Rightarrow> DOMRect \<Rightarrow> int \<Rightarrow> real" where
  "xAt d r i = (if d = Some toRight then rect_left r + of_int i * 50 else rect_right r - of_int i * 50)"


text \<open>The state a call ends in, whether it returned or threw.\<close>

definition stateOf :: "result \<Rightarrow> state" where
  "stateOf r = (case r of Inl (e, s) \<Rightarrow> s | Inr s \<Rightarrow> s)"

text \<open>What one call of \<open>sendEventsDispatcher\<close> at step \<open>i\<close> dispatches (read off the
  function itself), what it logs, and what it throws.\<close>

definition synthesized :: "platform \<Rightarrow> page \<Rightarrow> int \<Rightarrow> state \<Rightarrow> (element \<times> event) list" where
  "synthesized p pg i s =
     dispatched (stateOf (sendEventsDispatcher p pg i maxIterations (s\<lparr>dispatched := []\<rparr>)))"

definition logged :: "platform \<Rightarrow> page \<Rightarrow> log list" where
  "logged p pg =
     (if supportTouchEvent p
      then (case synthFailure p pg of Some e \<Rightarrow> [console_error e] | None \<Rightarrow> [])
      else [])"

definition thrown :: "platform \<Rightarrow> page \<Rightarrow> exn list" where
  "thrown p pg =
     (if supportTouchEvent p then []
      else (case synthFailure p pg of Some e \<Rightarrow> [e] | None \<Rightarrow> []))"

text \<open>The timer that \<open>sendEvents i\<close> registers, if any.\<close>

definition pending :: "int \<Rightarrow> timer list" where
  "pending i = (if i = maxIterations then [] else [\<lparr>captured_index = i, delay = 10\<rparr>])"

text \<open>The events dispatched between two states.\<close>

definition newEvents :: "state \<Rightarrow> state \<Rightarrow> (element \<times> event) list" where
  "newEvents s s' = drop (length (dispatched s)) (dispatched s')"

text \<open>The pages of the callbacks that a run executes, out of the pages offered to its
  five steps: all of them under the touch strategy; under the mouse strategy those up to
  and including the first one on which the synthesizer throws, because the exception
  leaves the callback before it schedules the next step.\<close>

definition reached :: "platform \<Rightarrow> page list \<Rightarrow> page list" where
  "reached p pgs =
     (if supportTouchEvent p then pgs
      else takeWhile (\<lambda>pg. synthFailure p pg = None) pgs @
           take 1 (dropWhile (\<lambda>pg. synthFailure p pg = None) pgs))"

text \<open>The shape of an event built by the strategy that the platform selects.\<close>

definition synthetic :: "platform \<Rightarrow> event \<Rightarrow> bool" where
  "synthetic p ev =
     (case ev of
        TouchEv t \<Rightarrow>
          supportTouchEvent p \<and> touch_type t \<in> set touchEvents \<and> shiftKey t \<and> targetTouches t = []
      | MouseEv m \<Rightarrow>
          \<not> supportTouchEvent p \<and> mouse_type m \<in> set mouseEvents \<and> \<not> mouse_ctrlKey m \<and>
          \<not> mouse_altKey m \<and> \<not> mouse_shiftKey m \<and> \<not> mouse_metaKey m)"

text \<open>Accounting for interleaved runs: the event types of a list of dispatched events,
  and the event types that the pending timers have still to produce (a timer that
  captured \<open>i\<close> stands for the steps \<open>i..4\<close> of its run).\<close>

definition kinds :: "(element \<times> event) list \<Rightarrow> string multiset" where
  "kinds evs = mset (map (eventType \<circ> snd) evs)"

definition owed :: "platform \<Rightarrow> timer list \<Rightarrow> string multiset" where
  "owed p ts =
     mset (concat (map (\<lambda>t. map (\<lambda>j. eventTypes p ! stepKind j) [captured_index t..4]) ts))"

subsection \<open>Concrete inputs\<close>

text \<open>A page with one \<open>ion-item-options\<close> on the end side and a trigger button (node 7)
  inside the host element (node 0), before and after \<open>ngAfterViewInit\<close>; the same page
  without a trigger button.\<close>

definition fresh :: state where
  "fresh =
     \<lparr>itemSliding = Some 1, itemOptionsList = [\<lparr>side = Some ''end''\<rparr>],
      revealButton = None, swipeDirection = None, nativeElement = 0,
      querySelector = (\<lambda>sel. if sel = ''ion-item *[appRevealSlidingButton]'' then Some 7 else None),
      listeners = [], timers = [], dispatched = [], console = [], uncaught = []\<rparr>"

definition attached :: state where
  "attached = stateOf (ngAfterViewInit fresh)"

definition noTrigger :: state where
  "noTrigger = fresh\<lparr>querySelector := (\<lambda>sel. None)\<rparr>"

text \<open>A browser with and without touch support, a bounding box, and a page on which
  every call succeeds.\<close>

definition touchPlatform :: platform where
  "touchPlatform = \<lparr>Touch_defined = True, TouchEvent_defined = True\<rparr>"

definition mousePlatform :: platform where
  "mousePlatform = \<lparr>Touch_defined = False, TouchEvent_defined = False\<rparr>"

definition box :: DOMRect where
  "box = \<lparr>rect_top = 100, rect_left = 0, rect_right = 320\<rparr>"

definition okPage :: page where
  "okPage =
     \<lparr>getBoundingClientRect = box, Date_now = 1000, new_Touch = None, new_TouchEvent = None,
      createEvent = None, initMouseEvent = None, dispatchEvent = None\<rparr>"

text \<open>A browser that defines \<open>Touch\<close> but does not let scripts construct it.\<close>

definition illegalPage :: page where
  "illegalPage = okPage\<lparr>new_Touch := Some (TypeError ''Illegal constructor'')\<rparr>"

text \<open>A bounding box with fractional coordinates, and a page that answers with it.\<close>

definition fracBox :: DOMRect where
  "fracBox = \<lparr>rect_top = 100.5, rect_left = 0.25, rect_right = 320.75\<rparr>"

definition fracPage :: page where
  "fracPage = okPage\<lparr>getBoundingClientRect := fracBox\<rparr>"

text \<open>A browser that defines \<open>Touch\<close> but not \<open>TouchEvent\<close>.\<close>

definition halfPlatform :: platform where
  "halfPlatform = \<lparr>Touch_defined = True, TouchEvent_defined = False\<rparr>"

text \<open>Pages on which \<open>new TouchEvent\<close>, respectively \<open>dispatchEvent\<close>, throws.\<close>

definition noTouchEventPage :: page where
  "noTouchEventPage = okPage\<lparr>new_TouchEvent := Some (TypeError ''Illegal constructor'')\<rparr>"

definition dispatchFailPage :: page where
  "dispatchFailPage = okPage\<lparr>dispatchEvent := Some (Error ''InvalidStateError'')\<rparr>"

section \<open>Lemmas about the synthesizer and the sequencer\<close>

lemma dispatcher_unfold:
  "sendEventsDispatcher p pg i maxIterations s =
     (if supportTouchEvent p then sendTouchEvent else sendMouseEvent) pg (nativeElement s)
        (eventTypes p ! stepKind i) (xAt (swipeDirection s) (getBoundingClientRect pg) i)
        (rect_top (getBoundingClientRect pg) + 10) s"
  by (simp add: sendEventsDispatcher_def eventTypes_def stepKind_def xAt_def Let_def)

lemma sendTouchEvent_ok:
  assumes "new_Touch pg = None" "new_TouchEvent pg = None" "dispatchEvent pg = None"
  shows "sendTouchEvent pg el ty x y s =
     Inr (s\<lparr>dispatched := dispatched s @ [(el, TouchEv
       \<lparr>touch_type = ty, cancelable = True, bubbles = True,
        touches = [\<lparr>touch_identifier = ToInt32 (real (Date_now pg)), target = el, clientX = x, clientY = y,
                       radiusX = 2.5, radiusY = 2.5, rotationAngle = 10, force = 0.5\<rparr>], targetTouches = [],
        changedTouches = [\<lparr>touch_identifier = ToInt32 (real (Date_now pg)), target = el, clientX = x, clientY = y,
                       radiusX = 2.5, radiusY = 2.5, rotationAngle = 10, force = 0.5\<rparr>], shiftKey = True\<rparr>)]\<rparr>)"
  using assms by (simp add: sendTouchEvent_def Let_def)

lemma sendTouchEvent_caught:
  assumes "(case new_Touch pg of Some e \<Rightarrow> Some e
            | None \<Rightarrow> (case new_TouchEvent pg of Some e \<Rightarrow> Some e | None \<Rightarrow> dispatchEvent pg)) = Some e"
  shows "sendTouchEvent pg el ty x y s = Inr (s\<lparr>console := console s @ [console_error e]\<rparr>)"
  using assms by (simp add: sendTouchEvent_def split: option.splits)

lemma sendMouseEvent_ok:
  assumes "createEvent pg = None" "initMouseEvent pg = None" "dispatchEvent pg = None"
  shows "sendMouseEvent pg el ty x y s =
     Inr (s\<lparr>dispatched := dispatched s @ [(el, MouseEv \<lparr>mouse_type = ty, mouse_canBubble = True,
                            mouse_cancelable = True, mouse_detail = 0,
                            mouse_screenX = ToInt32 0, mouse_screenY = ToInt32 0,
                            mouse_clientX = ToInt32 x, mouse_clientY = ToInt32 y,
                            mouse_ctrlKey = False, mouse_altKey = False,
                            mouse_shiftKey = False, mouse_metaKey = False,
                            mouse_button = 0, mouse_relatedTarget = None\<rparr>)]\<rparr>)"
  using assms by (simp add: sendMouseEvent_def)

lemma sendMouseEvent_throws:
  assumes "(case createEvent pg of Some e \<Rightarrow> Some e
            | None \<Rightarrow> (case initMouseEvent pg of Some e \<Rightarrow> Some e | None \<Rightarrow> dispatchEvent pg)) = Some e"
  shows "sendMouseEvent pg el ty x y s = Inl (e, s)"
  using assms by (simp add: sendMouseEvent_def split: option.splits)

lemma synthFailure_touch_None:
  "supportTouchEvent p \<Longrightarrow> synthFailure p pg = None \<Longrightarrow>
     new_Touch pg = None \<and> new_TouchEvent pg = None \<and> dispatchEvent pg = None"
  by (simp add: synthFailure_def split: option.splits)

lemma synthFailure_mouse_None:
  "\<not> supportTouchEvent p \<Longrightarrow> synthFailure p pg = None \<Longrightarrow>
     createEvent pg = None \<and> initMouseEvent pg = None \<and> dispatchEvent pg = None"
  by (simp add: synthFailure_def split: option.splits)

lemma synthesized_failed:
  assumes "synthFailure p pg = Some e"
  shows "synthesized p pg i s = []"
proof (cases "supportTouchEvent p")
  case True
  with assms show ?thesis
    by (simp add: synthesized_def dispatcher_unfold synthFailure_def sendTouchEvent_caught stateOf_def)
next
  case False
  with assms show ?thesis
    by (simp add: synthesized_def dispatcher_unfold synthFailure_def sendMouseEvent_throws stateOf_def)
qed

lemma dispatcher_returns:
  assumes "supportTouchEvent p \<or> synthFailure p pg = None"
  shows "sendEventsDispatcher p pg i maxIterations s =
           Inr (s\<lparr>dispatched := dispatched s @ synthesized p pg i s,
                  console := console s @ logged p pg\<rparr>)"
proof (cases "supportTouchEvent p")
  case True
  show ?thesis
  proof (cases "synthFailure p pg")
    case None
    with True synthFailure_touch_None[OF True None] show ?thesis
      by (simp add: synthesized_def dispatcher_unfold logged_def sendTouchEvent_ok stateOf_def)
  next
    case (Some e)
    with True show ?thesis
      by (simp add: synthesized_def dispatcher_unfold logged_def synthFailure_def
            sendTouchEvent_caught stateOf_def)
  qed
next
  case False
  with assms have n: "synthFailure p pg = None" by simp
  with False synthFailure_mouse_None[OF False n] show ?thesis
    by (simp add: synthesized_def dispatcher_unfold logged_def sendMouseEvent_ok stateOf_def)
qed

lemma dispatcher_throws:
  assumes "\<not> supportTouchEvent p" "synthFailure p pg = Some e"
  shows "sendEventsDispatcher p pg i maxIterations s = Inl (e, s)"
  using assms by (simp add: dispatcher_unfold synthFailure_def sendMouseEvent_throws)

lemma synthesized_upd [simp]:
  "synthesized p pg i (s\<lparr>timers := ts\<rparr>) = synthesized p pg i s"
  "synthesized p pg i (s\<lparr>dispatched := d\<rparr>) = synthesized p pg i s"
  "synthesized p pg i (s\<lparr>console := c\<rparr>) = synthesized p pg i s"
  "synthesized p pg i (s\<lparr>uncaught := u\<rparr>) = synthesized p pg i s"
proof -
  have *: "\<And>s s'. nativeElement s' = nativeElement s \<Longrightarrow> swipeDirection s' = swipeDirection s
      \<Longrightarrow> synthesized p pg i s' = synthesized p pg i s"
  proof (cases "synthFailure p pg")
    case None
    fix s s' :: state
    assume h: "nativeElement s' = nativeElement s" "swipeDirection s' = swipeDirection s"
    show "synthesized p pg i s' = synthesized p pg i s"
    proof (cases "supportTouchEvent p")
      case True
      with h synthFailure_touch_None[OF True None] show ?thesis
        by (simp add: synthesized_def dispatcher_unfold sendTouchEvent_ok stateOf_def)
    next
      case False
      with h synthFailure_mouse_None[OF False None] show ?thesis
        by (simp add: synthesized_def dispatcher_unfold sendMouseEvent_ok stateOf_def)
    qed
  next
    case (Some e)
    fix s s' :: state
    show "synthesized p pg i s' = synthesized p pg i s"
      by (simp add: synthesized_failed[OF Some])
  qed
  show "synthesized p pg i (s\<lparr>timers := ts\<rparr>) = synthesized p pg i s" by (rule *) simp_all
  show "synthesized p pg i (s\<lparr>dispatched := d\<rparr>) = synthesized p pg i s" by (rule *) simp_all
  show "synthesized p pg i (s\<lparr>console := c\<rparr>) = synthesized p pg i s" by (rule *) simp_all
  show "synthesized p pg i (s\<lparr>uncaught := u\<rparr>) = synthesized p pg i s" by (rule *) simp_all
qed

lemma sendEvents_eq: "sendEvents i s = s\<lparr>timers := timers s @ pending i\<rparr>"
  by (simp add: sendEvents_def pending_def)

lemma step_Timeout_returns:
  assumes "timers s = t # ts" "supportTouchEvent p \<or> synthFailure p pg = None"
  shows "step p (Timeout pg) s =
           s\<lparr>timers := ts @ pending (captured_index t + 1),
             dispatched := dispatched s @ synthesized p pg (captured_index t) s,
             console := console s @ logged p pg\<rparr>"
  using assms(1) by (simp add: timeoutCallback_def dispatcher_returns[OF assms(2)] sendEvents_eq)

lemma step_Timeout_throws:
  assumes "timers s = t # ts" "\<not> supportTouchEvent p" "synthFailure p pg = Some e"
  shows "step p (Timeout pg) s = s\<lparr>timers := ts, uncaught := uncaught s @ [e]\<rparr>"
  using assms(1) by (simp add: timeoutCallback_def dispatcher_throws[OF assms(2,3)])

lemma step_Timeout_idle: "timers s = [] \<Longrightarrow> step p (Timeout pg) s = s"
  by simp

lemma click_listener:
  assumes "listeners s = [(b, ''click'')]"
  shows "click b s = s\<lparr>timers := timers s @ pending 0\<rparr>"
  using assms by (simp add: click_def sendEvents_eq)

lemma exec_Nil [simp]: "exec p [] s = s"
  by (simp add: exec_def)

lemma exec_Cons: "exec p (a # as) s = exec p as (step p a s)"
  by (simp add: exec_def)

lemma exec_append: "exec p (as @ bs) s = exec p bs (exec p as s)"
  by (simp add: exec_def)

lemma pending_5 [simp]: "pending 5 = []"
  by (simp add: pending_def maxIterations_def)

lemma pending_lt [simp]: "i \<noteq> 5 \<Longrightarrow> pending i = [\<lparr>captured_index = i, delay = 10\<rparr>]"
  by (simp add: pending_def maxIterations_def)

lemma exec_idle: "timers s = [] \<Longrightarrow> exec p (map Timeout pgs) s = s"
  by (induction pgs) (simp_all add: exec_Cons)

lemma click_none [simp]: "listeners s = [] \<Longrightarrow> click e s = s"
  by (simp add: click_def)

lemma exec_inert:
  assumes "listeners s = []" "timers s = []"
  shows "exec p as s = s"
  using assms
proof (induction as)
  case Nil
  show ?case by simp
next
  case (Cons a as)
  then show ?case by (cases a) (simp_all add: exec_Cons)
qed

lemma reached_Cons_returns:
  "supportTouchEvent p \<or> synthFailure p pg = None \<Longrightarrow> reached p (pg # pgs) = pg # reached p pgs"
  by (auto simp: reached_def)

lemma reached_Cons_throws:
  "\<not> supportTouchEvent p \<Longrightarrow> synthFailure p pg = Some e \<Longrightarrow> reached p (pg # pgs) = [pg]"
  by (simp add: reached_def)

lemma thrown_returns [simp]:
  "supportTouchEvent p \<or> synthFailure p pg = None \<Longrightarrow> thrown p pg = []"
  by (auto simp: thrown_def)

lemma logged_mouse [simp]: "\<not> supportTouchEvent p \<Longrightarrow> logged p pg = []"
  by (simp add: logged_def)

lemma chain_all:
  assumes "timers s = pending i" "0 \<le> i" "i \<le> 5" "length pgs = nat (5 - i)"
  shows "exec p (map Timeout pgs) s =
           s\<lparr>timers := [],
             dispatched := dispatched s @
               concat (map (\<lambda>(pg, j). synthesized p pg j s) (zip (reached p pgs) [i..4])),
             console := console s @ concat (map (logged p) (reached p pgs)),
             uncaught := uncaught s @ concat (map (thrown p) (reached p pgs))\<rparr>"
  using assms
proof (induction pgs arbitrary: i s)
  case Nil
  then have "i = 5" by simp
  with Nil have "timers s = []" by simp
  then show ?case by (cases s) (simp add: reached_def)
next
  case (Cons pg pgs)
  then have i: "i < 5" by auto
  with Cons.prems have t: "timers s = \<lparr>captured_index = i, delay = 10\<rparr> # []" by simp
  have u: "[i..4] = i # [i + 1..4]" using i by (simp add: upto_rec1)
  let ?s1 = "step p (Timeout pg) s"
  show ?case
  proof (cases "supportTouchEvent p \<or> synthFailure p pg = None")
    case True
    have s1: "?s1 = s\<lparr>timers := pending (i + 1),
               dispatched := dispatched s @ synthesized p pg i s,
               console := console s @ logged p pg\<rparr>"
      using step_Timeout_returns[OF t True] by simp
    have ih: "exec p (map Timeout pgs) ?s1 =
             ?s1\<lparr>timers := [],
               dispatched := dispatched ?s1 @
                 concat (map (\<lambda>(pg, j). synthesized p pg j ?s1) (zip (reached p pgs) [i + 1..4])),
               console := console ?s1 @ concat (map (logged p) (reached p pgs)),
               uncaught := uncaught ?s1 @ concat (map (thrown p) (reached p pgs))\<rparr>"
    proof (rule Cons.IH)
      show "timers ?s1 = pending (i + 1)" unfolding s1 by simp
      show "0 \<le> i + 1" using Cons.prems by simp
      show "i + 1 \<le> 5" using i by simp
      show "length pgs = nat (5 - (i + 1))" using Cons.prems i by simp
    qed
    show ?thesis
      unfolding list.map exec_Cons ih u reached_Cons_returns[OF True]
      unfolding s1 using True by simp
  next
    case False
    then have m: "\<not> supportTouchEvent p" and "synthFailure p pg \<noteq> None" by simp_all
    then obtain e where e: "synthFailure p pg = Some e" by auto
    have s1: "?s1 = s\<lparr>timers := [], uncaught := uncaught s @ [e]\<rparr>"
      using step_Timeout_throws[OF t m e] by simp
    have "timers ?s1 = []" unfolding s1 by simp
    then have "exec p (map Timeout pgs) ?s1 = ?s1" by (rule exec_idle)
    then show ?thesis
      unfolding list.map exec_Cons u reached_Cons_throws[OF m e]
      unfolding s1 using m e by (simp add: synthesized_failed[OF e] thrown_def)
  qed
qed

lemma run_all:
  assumes "listeners s = [(b, ''click'')]" "timers s = []" "length pgs = 5"
  shows "exec p (Click b # map Timeout pgs) s =
           s\<lparr>timers := [],
             dispatched := dispatched s @
               concat (map (\<lambda>(pg, j). synthesized p pg j s) (zip (reached p pgs) [0..4])),
             console := console s @ concat (map (logged p) (reached p pgs)),
             uncaught := uncaught s @ concat (map (thrown p) (reached p pgs))\<rparr>"
proof -
  let ?s1 = "click b s"
  have s1: "?s1 = s\<lparr>timers := pending 0\<rparr>"
    using click_listener[OF assms(1)] assms(2) by simp
  have "exec p (map Timeout pgs) ?s1 =
           ?s1\<lparr>timers := [],
             dispatched := dispatched ?s1 @
               concat (map (\<lambda>(pg, j). synthesized p pg j ?s1) (zip (reached p pgs) [0..4])),
             console := console ?s1 @ concat (map (logged p) (reached p pgs)),
             uncaught := uncaught ?s1 @ concat (map (thrown p) (reached p pgs))\<rparr>"
  proof (rule chain_all)
    show "timers ?s1 = pending 0" unfolding s1 by simp
    show "length pgs = nat (5 - 0)" using assms(3) by simp
  qed simp_all
  then show ?thesis
    unfolding exec_Cons step.simps
    unfolding s1 by simp
qed

lemma reached_all:
  assumes "\<forall>pg\<in>set pgs. supportTouchEvent p \<or> synthFailure p pg = None"
  shows "reached p pgs = pgs"
proof (cases "supportTouchEvent p")
  case True
  then show ?thesis by (simp add: reached_def)
next
  case False
  with assms have "\<forall>pg\<in>set pgs. synthFailure p pg = None" by simp
  then have tw: "takeWhile (\<lambda>pg. synthFailure p pg = None) pgs = pgs"
    and dw: "dropWhile (\<lambda>pg. synthFailure p pg = None) pgs = []"
    by simp_all
  show ?thesis
    unfolding reached_def tw dw using False by simp
qed

lemma run_state:
  assumes "listeners s = [(b, ''click'')]" "timers s = []" "length pgs = 5"
    "\<forall>pg\<in>set pgs. supportTouchEvent p \<or> synthFailure p pg = None"
  shows "exec p (Click b # map Timeout pgs) s =
           s\<lparr>timers := [],
             dispatched := dispatched s @ concat (map (\<lambda>(pg, j). synthesized p pg j s) (zip pgs [0..4])),
             console := console s @ concat (map (logged p) pgs)\<rparr>"
proof -
  have "concat (map (thrown p) pgs) = []"
    using assms(4) by (induction pgs) auto
  then show ?thesis
    unfolding run_all[OF assms(1,2,3)] reached_all[OF assms(4)] by simp
qed

lemma synthesized_eventType:
  assumes "synthFailure p pg = None"
  shows "map (eventType \<circ> snd) (synthesized p pg i s) = [eventTypes p ! stepKind i]"
proof (cases "supportTouchEvent p")
  case True
  with synthFailure_touch_None[OF True assms] show ?thesis
    by (simp add: synthesized_def dispatcher_unfold sendTouchEvent_ok stateOf_def eventType_def)
next
  case False
  with synthFailure_mouse_None[OF False assms] show ?thesis
    by (simp add: synthesized_def dispatcher_unfold sendMouseEvent_ok stateOf_def eventType_def)
qed


lemma list5:
  assumes "length xs = 5"
  obtains a b c d e where "xs = [a, b, c, d, e]"
proof -
  from assms obtain a r1 where 1: "xs = a # r1" "length r1 = 4" by (cases xs) auto
  then obtain b r2 where 2: "r1 = b # r2" "length r2 = 3" by (cases r1) auto
  then obtain c r3 where 3: "r2 = c # r3" "length r3 = 2" by (cases r2) auto
  then obtain d r4 where 4: "r3 = d # r4" "length r4 = 1" by (cases r3) auto
  then obtain e where 5: "r4 = [e]" by (cases r4) auto
  from 1 2 3 4 5 have "xs = [a, b, c, d, e]" by simp
  then show thesis by (rule that)
qed

lemma upto_0_4: "[0..4::int] = [0, 1, 2, 3, 4]"
  by (simp add: upto_rec1)

lemma run_newEvents:
  assumes "listeners s = [(b, ''click'')]" "timers s = []"
    "\<forall>pg\<in>set [pg0, pg1, pg2, pg3, pg4]. supportTouchEvent p \<or> synthFailure p pg = None"
  shows "newEvents s (exec p (Click b # map Timeout [pg0, pg1, pg2, pg3, pg4]) s) =
     synthesized p pg0 0 s @ synthesized p pg1 1 s @ synthesized p pg2 2 s @
     synthesized p pg3 3 s @ synthesized p pg4 4 s"
proof -
  have "length [pg0, pg1, pg2, pg3, pg4] = 5" by simp
  note r = run_state[OF assms(1,2) this assms(3)]
  show ?thesis
    unfolding r newEvents_def upto_0_4 by simp
qed

lemma stepKinds [simp]:
  "stepKind 0 = 0" "stepKind 1 = 2" "stepKind 2 = 2" "stepKind 3 = 2" "stepKind 4 = 1"
  by (simp_all add: stepKind_def maxIterations_def)

section \<open>Lemmas about runs\<close>

lemma attached_eq:
  "attached = fresh\<lparr>swipeDirection := Some toLeft, revealButton := Some 7,
                     listeners := [(7, ''click'')]\<rparr>"
  by (simp add: attached_def ngAfterViewInit_def selfCheck_def init_def first_def fresh_def
        stateOf_def Let_def)

lemma attached_fields [simp]:
  "listeners attached = [(7, ''click'')]" "timers attached = []" "dispatched attached = []"
  "console attached = []" "uncaught attached = []" "swipeDirection attached = Some toLeft"
  "nativeElement attached = 0"
  by (simp_all add: attached_eq) (simp_all add: fresh_def)

lemma synthFailure_okPage [simp]: "synthFailure p okPage = None"
  by (simp add: synthFailure_def okPage_def)

lemma synthFailure_illegalPage [simp]:
  "synthFailure touchPlatform illegalPage = Some (TypeError ''Illegal constructor'')"
  by (simp add: synthFailure_def illegalPage_def okPage_def supportTouchEvent_def touchPlatform_def)

lemma supportTouchEvent_examples [simp]:
  "supportTouchEvent touchPlatform" "\<not> supportTouchEvent mousePlatform"
  by (simp_all add: supportTouchEvent_def touchPlatform_def mousePlatform_def)


lemma newEvents_same [simp]: "newEvents s s = []"
  by (simp add: newEvents_def)


lemma newEvents_run_all:
  assumes "listeners s = [(b, ''click'')]" "timers s = []" "length pgs = 5"
  shows "newEvents s (exec p (Click b # map Timeout pgs) s) =
           concat (map (\<lambda>(pg, j). synthesized p pg j s) (zip (reached p pgs) [0..4]))"
  unfolding run_all[OF assms] newEvents_def by simp

lemma selfCheck_returns:
  assumes "itemSliding s \<noteq> None"
  shows "selfCheck s =
    Inr (s\<lparr>console :=
       console s
       @ (if length (itemOptionsList s) > 1
          then [console_warn ''RevealSlidingDirective: Processing only a one ion-item-options element'']
          else [])
       @ (if length (itemOptionsList s) = 0
          then [console_warn ''RevealSlidingDirective: Missing ion-item-options element'']
          else [])\<rparr>)"
proof (cases "length (itemOptionsList s) > 1")
  case True
  with assms show ?thesis by (simp add: selfCheck_def)
next
  case False
  show ?thesis
  proof (cases "length (itemOptionsList s) = 0")
    case True
    with assms show ?thesis by (simp add: selfCheck_def)
  next
    case z: False
    with False assms show ?thesis by (simp add: selfCheck_def)
  qed
qed

lemma init_no_trigger:
  assumes "querySelector s ''ion-item *[appRevealSlidingButton]'' = None"
  shows "revealButton (init s) = None" "listeners (init s) = listeners s"
    "timers (init s) = timers s"
    "console (init s) = console s @
       [console_warn ''RevealSlidingDirective: appRevealSlidingButton attribute is missed'']"
  using assms by (cases "itemOptionsList s"; simp add: init_def first_def)+

lemma init_trigger:
  assumes "querySelector s ''ion-item *[appRevealSlidingButton]'' = Some b"
  shows "revealButton (init s) = Some b" "listeners (init s) = listeners s @ [(b, ''click'')]"
    "timers (init s) = timers s" "console (init s) = console s"
  using assms by (cases "itemOptionsList s"; simp add: init_def first_def)+

text \<open>The hypotheses on the state in the run theorems describe the state after a
  successful setup on a page that has a trigger.\<close>

lemma setup_attaches:
  assumes "itemSliding s \<noteq> None"
    "querySelector s ''ion-item *[appRevealSlidingButton]'' = Some b"
    "listeners s = []" "timers s = []"
  shows "\<exists>s'. ngAfterViewInit s = Inr s' \<and> listeners s' = [(b, ''click'')] \<and> timers s' = []
           \<and> revealButton s' = Some b"
proof -
  let ?s1 = "s\<lparr>console :=
       console s
       @ (if length (itemOptionsList s) > 1
          then [console_warn ''RevealSlidingDirective: Processing only a one ion-item-options element'']
          else [])
       @ (if length (itemOptionsList s) = 0
          then [console_warn ''RevealSlidingDirective: Missing ion-item-options element'']
          else [])\<rparr>"
  have q: "querySelector ?s1 ''ion-item *[appRevealSlidingButton]'' = Some b"
    using assms(2) by simp
  have "ngAfterViewInit s = Inr (init ?s1)"
    by (simp add: ngAfterViewInit_def selfCheck_returns[OF assms(1)])
  moreover have "listeners (init ?s1) = [(b, ''click'')]" "timers (init ?s1) = []"
    "revealButton (init ?s1) = Some b"
    using init_trigger[OF q] assms(3,4) by simp_all
  ultimately show ?thesis by blast
qed

lemma stepKind_less: "stepKind i < 3"
  by (simp add: stepKind_def)

lemma eventTypes_nth_mem: "eventTypes p ! stepKind i \<in> set (eventTypes p)"
proof -
  have "length (eventTypes p) = 3"
    by (simp add: eventTypes_def touchEvents_def mouseEvents_def)
  with stepKind_less[of i] show ?thesis by (intro nth_mem) simp
qed

lemma synthesized_synthetic:
  "\<forall>x\<in>set (synthesized p pg i s). fst x = nativeElement s \<and> synthetic p (snd x)"
proof (cases "synthFailure p pg")
  case (Some e)
  then show ?thesis by (simp add: synthesized_failed[OF Some])
next
  case None
  show ?thesis
  proof (cases "supportTouchEvent p")
    case True
    with synthFailure_touch_None[OF True None] eventTypes_nth_mem[of p i] show ?thesis
      by (simp add: synthesized_def dispatcher_unfold sendTouchEvent_ok stateOf_def
            synthetic_def eventTypes_def)
  next
    case False
    with synthFailure_mouse_None[OF False None] eventTypes_nth_mem[of p i] show ?thesis
      by (simp add: synthesized_def dispatcher_unfold sendMouseEvent_ok stateOf_def
            synthetic_def eventTypes_def)
  qed
qed

lemma fold_sendEvents:
  "fold (\<lambda>l s'. sendEvents 0 s') ls s = s\<lparr>timers := timers s @ concat (map (\<lambda>l. pending 0) ls)\<rparr>"
  by (induction ls arbitrary: s) (simp_all add: sendEvents_eq)

lemma click_eq:
  "click e s =
     s\<lparr>timers := timers s @
          concat (map (\<lambda>l. pending 0) (filter (\<lambda>l. l = (e, ''click'')) (listeners s)))\<rparr>"
  by (simp add: click_def fold_sendEvents)

lemma shapeI:
  assumes "r = s\<lparr>timers := ts, dispatched := dispatched s @ evs,
                   console := console s @ lg, uncaught := uncaught s @ un\<rparr>"
    and "\<forall>x\<in>set evs. Q x"
  shows "\<exists>ts evs lg un.
     r = s\<lparr>timers := ts, dispatched := dispatched s @ evs,
            console := console s @ lg, uncaught := uncaught s @ un\<rparr>
     \<and> (\<forall>x\<in>set evs. Q x)"
  using assms by blast

lemma step_shape:
  "\<exists>ts evs lg un.
     step p a s = s\<lparr>timers := ts, dispatched := dispatched s @ evs,
                     console := console s @ lg, uncaught := uncaught s @ un\<rparr>
     \<and> (\<forall>x\<in>set evs. fst x = nativeElement s \<and> synthetic p (snd x))"
proof (cases a)
  case (Click e)
  have "step p a s = s\<lparr>timers := timers s @
          concat (map (\<lambda>l. pending 0) (filter (\<lambda>l. l = (e, ''click'')) (listeners s))),
          dispatched := dispatched s @ [], console := console s @ [], uncaught := uncaught s @ []\<rparr>"
    unfolding Click step.simps click_eq by simp
  then show ?thesis by (rule shapeI) simp
next
  case (Timeout pg)
  show ?thesis
  proof (cases "timers s")
    case Nil
    then have "step p a s = s\<lparr>timers := [], dispatched := dispatched s @ [],
        console := console s @ [], uncaught := uncaught s @ []\<rparr>"
      unfolding Timeout by (cases s) simp
    then show ?thesis by (rule shapeI) simp
  next
    case (Cons t ts)
    show ?thesis
    proof (cases "supportTouchEvent p \<or> synthFailure p pg = None")
      case True
      have "step p a s = s\<lparr>timers := ts @ pending (captured_index t + 1),
             dispatched := dispatched s @ synthesized p pg (captured_index t) s,
             console := console s @ logged p pg, uncaught := uncaught s @ []\<rparr>"
        unfolding Timeout step_Timeout_returns[OF Cons True] by simp
      then show ?thesis
        by (rule shapeI) (rule synthesized_synthetic)
    next
      case False
      then have m: "\<not> supportTouchEvent p" and "synthFailure p pg \<noteq> None" by simp_all
      then obtain e where e: "synthFailure p pg = Some e" by auto
      have "step p a s = s\<lparr>timers := ts, dispatched := dispatched s @ [],
             console := console s @ [], uncaught := uncaught s @ [e]\<rparr>"
        unfolding Timeout step_Timeout_throws[OF Cons m e] by simp
      then show ?thesis by (rule shapeI) simp
    qed
  qed
qed

lemma exec_shape:
  "\<exists>ts evs lg un.
     exec p as s = s\<lparr>timers := ts, dispatched := dispatched s @ evs,
                      console := console s @ lg, uncaught := uncaught s @ un\<rparr>
     \<and> (\<forall>x\<in>set evs. fst x = nativeElement s \<and> synthetic p (snd x))"
proof (induction as arbitrary: s)
  case Nil
  have "exec p [] s = s\<lparr>timers := timers s, dispatched := dispatched s @ [],
         console := console s @ [], uncaught := uncaught s @ []\<rparr>"
    by simp
  then show ?case by (rule shapeI) simp
next
  case (Cons a as)
  obtain ts evs lg un where
    1: "step p a s = s\<lparr>timers := ts, dispatched := dispatched s @ evs,
                     console := console s @ lg, uncaught := uncaught s @ un\<rparr>"
    and e1: "\<forall>x\<in>set evs. fst x = nativeElement s \<and> synthetic p (snd x)"
    using step_shape[of p a s] by blast
  let ?s1 = "step p a s"
  obtain ts2 evs2 lg2 un2 where
    2: "exec p as ?s1 = ?s1\<lparr>timers := ts2, dispatched := dispatched ?s1 @ evs2,
                     console := console ?s1 @ lg2, uncaught := uncaught ?s1 @ un2\<rparr>"
    and e2: "\<forall>x\<in>set evs2. fst x = nativeElement ?s1 \<and> synthetic p (snd x)"
    using Cons.IH[of ?s1] by blast
  have n: "nativeElement ?s1 = nativeElement s" unfolding 1 by simp
  have "exec p (a # as) s = s\<lparr>timers := ts2, dispatched := dispatched s @ (evs @ evs2),
                     console := console s @ (lg @ lg2), uncaught := uncaught s @ (un @ un2)\<rparr>"
    unfolding exec_Cons 2 unfolding 1 by simp
  moreover have "\<forall>x\<in>set (evs @ evs2). fst x = nativeElement s \<and> synthetic p (snd x)"
    using e1 e2 n by auto
  ultimately show ?case by blast
qed

lemma exec_frame:
  "swipeDirection (exec p as s) = swipeDirection s"
  "revealButton (exec p as s) = revealButton s"
  "nativeElement (exec p as s) = nativeElement s"
  "listeners (exec p as s) = listeners s"
  "itemSliding (exec p as s) = itemSliding s"
  "itemOptionsList (exec p as s) = itemOptionsList s"
proof -
  obtain ts evs lg un where
    "exec p as s = s\<lparr>timers := ts, dispatched := dispatched s @ evs,
                      console := console s @ lg, uncaught := uncaught s @ un\<rparr>"
    using exec_shape[of p as s] by blast
  then show "swipeDirection (exec p as s) = swipeDirection s"
    "revealButton (exec p as s) = revealButton s"
    "nativeElement (exec p as s) = nativeElement s"
    "listeners (exec p as s) = listeners s"
    "itemSliding (exec p as s) = itemSliding s"
    "itemOptionsList (exec p as s) = itemOptionsList s"
    by simp_all
qed

lemma exec_newEvents:
  "dispatched (exec p as s) = dispatched s @ newEvents s (exec p as s)"
  "\<forall>x\<in>set (newEvents s (exec p as s)). fst x = nativeElement s \<and> synthetic p (snd x)"
proof -
  obtain ts evs lg un where
    1: "exec p as s = s\<lparr>timers := ts, dispatched := dispatched s @ evs,
                      console := console s @ lg, uncaught := uncaught s @ un\<rparr>"
    and 2: "\<forall>x\<in>set evs. fst x = nativeElement s \<and> synthetic p (snd x)"
    using exec_shape[of p as s] by blast
  have n: "newEvents s (exec p as s) = evs" unfolding 1 newEvents_def by simp
  show "dispatched (exec p as s) = dispatched s @ newEvents s (exec p as s)"
    unfolding n unfolding 1 by simp
  show "\<forall>x\<in>set (newEvents s (exec p as s)). fst x = nativeElement s \<and> synthetic p (snd x)"
    unfolding n by (rule 2)
qed

lemma sendTouchEvent_frame:
  "swipeDirection (stateOf (sendTouchEvent pg el ty x y s)) = swipeDirection s"
  "revealButton (stateOf (sendTouchEvent pg el ty x y s)) = revealButton s"
  by (simp_all add: sendTouchEvent_def stateOf_def Let_def split: option.split)

lemma sendMouseEvent_frame:
  "swipeDirection (stateOf (sendMouseEvent pg el ty x y s)) = swipeDirection s"
  "revealButton (stateOf (sendMouseEvent pg el ty x y s)) = revealButton s"
  by (simp_all add: sendMouseEvent_def stateOf_def Let_def split: option.split)

lemma sendEventsDispatcher_frame:
  "swipeDirection (stateOf (sendEventsDispatcher p pg i m s)) = swipeDirection s"
  "revealButton (stateOf (sendEventsDispatcher p pg i m s)) = revealButton s"
  by (cases "supportTouchEvent p";
      simp add: sendEventsDispatcher_def Let_def sendTouchEvent_frame sendMouseEvent_frame)+

lemma timeoutCallback_frame:
  "swipeDirection (stateOf (timeoutCallback p pg i s)) = swipeDirection s"
  "revealButton (stateOf (timeoutCallback p pg i s)) = revealButton s"
proof -
  show "swipeDirection (stateOf (timeoutCallback p pg i s)) = swipeDirection s"
    using sendEventsDispatcher_frame(1)[of p pg i maxIterations s]
    by (cases "sendEventsDispatcher p pg i maxIterations s")
       (auto simp: timeoutCallback_def stateOf_def sendEvents_eq)
  show "revealButton (stateOf (timeoutCallback p pg i s)) = revealButton s"
    using sendEventsDispatcher_frame(2)[of p pg i maxIterations s]
    by (cases "sendEventsDispatcher p pg i maxIterations s")
       (auto simp: timeoutCallback_def stateOf_def sendEvents_eq)
qed

lemma synthesized_length:
  "length (synthesized p pg i s) = (if synthFailure p pg = None then 1 else 0)"
proof (cases "synthFailure p pg")
  case None
  from synthesized_eventType[OF None, of i s]
  have "length (map (eventType \<circ> snd) (synthesized p pg i s)) = 1" by simp
  with None show ?thesis by simp
next
  case (Some e)
  then show ?thesis by (simp add: synthesized_failed[OF Some])
qed

lemma run_length:
  assumes "listeners s = [(b, ''click'')]" "timers s = []" "length pgs = 5"
    "\<forall>pg\<in>set pgs. synthFailure p pg = None"
  shows "length (newEvents s (exec p (Click b # map Timeout pgs) s)) = 5"
proof -
  from assms(3) obtain pg0 pg1 pg2 pg3 pg4 where pgs: "pgs = [pg0, pg1, pg2, pg3, pg4]"
    by (rule list5)
  from assms(4) have r: "reached p pgs = pgs" by (intro reached_all) simp
  from assms(4) show ?thesis
    unfolding newEvents_run_all[OF assms(1,2,3)] r upto_0_4
    unfolding pgs by (simp add: synthesized_length)
qed

lemma synthesized_eventType_if:
  "map (eventType \<circ> snd) (synthesized p pg i s) =
     (if synthFailure p pg = None then [eventTypes p ! stepKind i] else [])"
proof (cases "synthFailure p pg")
  case None
  then show ?thesis by (simp add: synthesized_eventType[OF None])
next
  case (Some e)
  then show ?thesis by (simp add: synthesized_failed[OF Some])
qed

lemma kinds_of_steps:
  "map (eventType \<circ> snd) (concat (map (\<lambda>(pg, j). synthesized p pg j s) zs)) =
     map (\<lambda>(pg, j). eventTypes p ! stepKind j) (filter (\<lambda>(pg, j). synthFailure p pg = None) zs)"
  by (induction zs) (auto simp: synthesized_eventType_if[unfolded comp_def] comp_def synthesized_failed)

lemma filter_zip_map:
  "map (\<lambda>(x, j). h j) (filter (\<lambda>(x, j). P x) (zip xs js)) =
     map snd (filter (\<lambda>(x, k). P x) (zip xs (map h js)))"
proof (induction xs arbitrary: js)
  case Nil
  show ?case by simp
next
  case (Cons x xs)
  then show ?case by (cases js) simp_all
qed

lemma length_filter_zip:
  "length js = length xs \<Longrightarrow>
     length (filter (\<lambda>(x, j). P x) (zip xs js)) = length (filter P xs)"
proof (induction xs arbitrary: js)
  case Nil
  show ?case by simp
next
  case (Cons x xs)
  then show ?case by (cases js) simp_all
qed

lemma logged_touch:
  assumes "supportTouchEvent p"
  shows "concat (map (logged p) pgs) = map console_error (List.map_filter (synthFailure p) pgs)"
  using assms
  by (induction pgs) (auto simp: logged_def List.map_filter_simps split: option.split)

lemma thrown_touch:
  assumes "supportTouchEvent p"
  shows "concat (map (thrown p) pgs) = []"
  using assms by (induction pgs) simp_all

lemma length_map_filter:
  "length (List.map_filter f xs) + length (filter (\<lambda>x. f x = None) xs) = length xs"
  by (induction xs) (auto simp: List.map_filter_simps split: option.split)

lemma owed_Nil [simp]: "owed p [] = {#}"
  by (simp add: owed_def)

lemma owed_append [simp]: "owed p (ts @ us) = owed p ts + owed p us"
  by (simp add: owed_def)

lemma owed_Cons:
  "owed p (t # ts) = mset (map (\<lambda>j. eventTypes p ! stepKind j) [captured_index t..4]) + owed p ts"
  by (simp add: owed_def)

lemma owed_pending:
  assumes "captured_index t \<le> 4"
  shows "owed p [t] =
           {#eventTypes p ! stepKind (captured_index t)#} + owed p (pending (captured_index t + 1))"
proof -
  let ?i = "captured_index t"
  let ?f = "\<lambda>j. eventTypes p ! stepKind j"
  have u: "[?i..4] = ?i # [?i + 1..4]" using assms by (simp add: upto_rec1)
  have "owed p [t] = mset (map ?f [?i..4])" by (simp add: owed_def)
  also have "\<dots> = {#?f ?i#} + mset (map ?f [?i + 1..4])" unfolding u by simp
  also have "mset (map ?f [?i + 1..4]) = owed p (pending (?i + 1))"
  proof (cases "?i = 4")
    case True
    then show ?thesis by simp
  next
    case False
    with assms have "?i + 1 \<noteq> 5" by simp
    then show ?thesis by (simp add: owed_def)
  qed
  finally show ?thesis .
qed

lemma owed_pending_0:
  "owed p (pending 0) = mset (map (\<lambda>j. eventTypes p ! stepKind j) [0, 1, 2, 3, 4])"
  by (simp add: owed_def upto_0_4)

lemma size_owed_pending_0: "size (owed p (pending 0)) = 5"
  by (simp add: owed_def upto_0_4)

lemma owed_empty:
  assumes "\<forall>t\<in>set ts. captured_index t \<le> 4" "owed p ts = {#}"
  shows "ts = []"
proof (cases ts)
  case Nil
  then show ?thesis .
next
  case (Cons t us)
  with assms(1) have "captured_index t \<le> 4" by simp
  then have "[captured_index t..4] \<noteq> []" by (simp add: upto_rec1)
  with assms(2) show ?thesis unfolding Cons owed_Cons by simp
qed

lemma step_Timeout_owed:
  assumes "\<forall>t\<in>set (timers s). captured_index t \<le> 4" "synthFailure p pg = None"
  shows "kinds (dispatched (step p (Timeout pg) s)) + owed p (timers (step p (Timeout pg) s)) =
           kinds (dispatched s) + owed p (timers s)"
    and "\<forall>t\<in>set (timers (step p (Timeout pg) s)). captured_index t \<le> 4"
    and "size (owed p (timers (step p (Timeout pg) s))) = size (owed p (timers s)) - 1"
proof -
  let ?s' = "step p (Timeout pg) s"
  have "(kinds (dispatched ?s') + owed p (timers ?s') = kinds (dispatched s) + owed p (timers s))
        \<and> (\<forall>t\<in>set (timers ?s'). captured_index t \<le> 4)
        \<and> size (owed p (timers ?s')) = size (owed p (timers s)) - 1"
  proof (cases "timers s")
    case Nil
    then have "?s' = s" by simp
    with assms(1) Nil show ?thesis by simp
  next
    case (Cons t ts)
    let ?i = "captured_index t"
    from assms(1) Cons have i: "?i \<le> 4" and ts: "\<forall>t\<in>set ts. captured_index t \<le> 4" by simp_all
    from assms(2) have ok: "supportTouchEvent p \<or> synthFailure p pg = None" by simp
    have o: "owed p (t # ts) = {#eventTypes p ! stepKind ?i#} + owed p (pending (?i + 1)) + owed p ts"
      using owed_append[of p "[t]" ts] owed_pending[OF i, of p] by simp
    have k: "kinds (synthesized p pg ?i s) = {#eventTypes p ! stepKind ?i#}"
      unfolding kinds_def synthesized_eventType[OF assms(2)] by simp
    have d: "dispatched ?s' = dispatched s @ synthesized p pg ?i s"
      and tm: "timers ?s' = ts @ pending (?i + 1)"
      unfolding step_Timeout_returns[OF Cons ok] by simp_all
    have v: "\<forall>t\<in>set (pending (?i + 1)). captured_index t \<le> 4"
      using i by (simp add: pending_def maxIterations_def)
    have 1: "kinds (dispatched ?s') + owed p (timers ?s') = kinds (dispatched s) + owed p (timers s)"
      unfolding d tm Cons o using k by (simp add: kinds_def)
    have 2: "\<forall>t\<in>set (timers ?s'). captured_index t \<le> 4"
      unfolding tm using ts v by auto
    have 3: "size (owed p (timers ?s')) = size (owed p (timers s)) - 1"
      unfolding tm Cons o by simp
    from 1 2 3 show ?thesis by blast
  qed
  then show "kinds (dispatched ?s') + owed p (timers ?s') = kinds (dispatched s) + owed p (timers s)"
    and "\<forall>t\<in>set (timers ?s'). captured_index t \<le> 4"
    and "size (owed p (timers ?s')) = size (owed p (timers s)) - 1"
    by blast+
qed

lemma exec_Timeouts_owed:
  assumes "\<forall>t\<in>set (timers s). captured_index t \<le> 4" "\<forall>pg\<in>set pgs. synthFailure p pg = None"
  shows "kinds (dispatched (exec p (map Timeout pgs) s)) + owed p (timers (exec p (map Timeout pgs) s)) =
           kinds (dispatched s) + owed p (timers s)
         \<and> (\<forall>t\<in>set (timers (exec p (map Timeout pgs) s)). captured_index t \<le> 4)
         \<and> size (owed p (timers (exec p (map Timeout pgs) s))) = size (owed p (timers s)) - length pgs"
  using assms
proof (induction pgs arbitrary: s)
  case Nil
  then show ?case by simp
next
  case (Cons pg pgs)
  let ?s1 = "step p (Timeout pg) s"
  from Cons.prems have ok: "synthFailure p pg = None"
    and rest: "\<forall>pg\<in>set pgs. synthFailure p pg = None" by simp_all
  note st = step_Timeout_owed[OF Cons.prems(1) ok]
  note ih = Cons.IH[OF st(2) rest]
  show ?case
    unfolding list.map exec_Cons using ih st(1,3) by simp
qed

lemma click_owed:
  assumes "listeners s = [(b, ''click'')]"
  shows "timers (click b s) = timers s @ [\<lparr>captured_index = 0, delay = 10\<rparr>]"
    and "dispatched (click b s) = dispatched s"
    and "listeners (click b s) = listeners s"
  unfolding click_listener[OF assms] by simp_all

lemma touch_all_fail_no_events:
  assumes "supportTouchEvent p" "\<forall>pg. Timeout pg \<in> set as \<longrightarrow> synthFailure p pg \<noteq> None"
  shows "dispatched (exec p as s) = dispatched s"
  using assms(2)
proof (induction as arbitrary: s)
  case Nil
  show ?case by simp
next
  case (Cons a as)
  have "dispatched (step p a s) = dispatched s"
  proof (cases a)
    case (Click e)
    then show ?thesis by (simp add: click_eq)
  next
    case (Timeout pg)
    with Cons.prems obtain e where e: "synthFailure p pg = Some e" by auto
    show ?thesis
    proof (cases "timers s")
      case Nil
      then show ?thesis unfolding Timeout by simp
    next
      case (Cons t ts)
      from assms(1) have ok: "supportTouchEvent p \<or> synthFailure p pg = None" by simp
      show ?thesis
        unfolding Timeout step_Timeout_returns[OF Cons ok]
        by (simp add: synthesized_failed[OF e])
    qed
  qed
  moreover from Cons.prems have "\<forall>pg. Timeout pg \<in> set as \<longrightarrow> synthFailure p pg \<noteq> None"
    by simp
  ultimately show ?case
    unfolding exec_Cons using Cons.IH[of "step p a s"] by simp
qed


lemma ToInt32_examples:
  "ToInt32 320.75 = 320" "ToInt32 270.75 = 270" "ToInt32 220.75 = 220" "ToInt32 170.75 = 170"
  "ToInt32 120.75 = 120" "ToInt32 110.5 = 110" "ToInt32 (- 29.25) = - 29"
  by (simp_all add: ToInt32_def Let_def)

lemma synthFailure_fracPage [simp]: "synthFailure p fracPage = None"
  by (simp add: synthFailure_def fracPage_def okPage_def)



lemma synthFailure_touch_NoneI:
  "supportTouchEvent p \<Longrightarrow> new_Touch pg = None \<Longrightarrow> new_TouchEvent pg = None \<Longrightarrow>
     dispatchEvent pg = None \<Longrightarrow> synthFailure p pg = None"
  by (simp add: synthFailure_def)

lemma synthFailure_mouse_NoneI:
  "\<not> supportTouchEvent p \<Longrightarrow> createEvent pg = None \<Longrightarrow> initMouseEvent pg = None \<Longrightarrow>
     dispatchEvent pg = None \<Longrightarrow> synthFailure p pg = None"
  by (simp add: synthFailure_def)


lemma okPage_calls [simp]:
  "new_Touch okPage = None" "new_TouchEvent okPage = None" "createEvent okPage = None"
  "initMouseEvent okPage = None" "dispatchEvent okPage = None"
  by (simp_all add: okPage_def)

lemma synthFailure_failing_pages [simp]:
  "synthFailure touchPlatform noTouchEventPage = Some (TypeError ''Illegal constructor'')"
  "synthFailure touchPlatform dispatchFailPage = Some (Error ''InvalidStateError'')"
  by (simp_all add: synthFailure_def noTouchEventPage_def dispatchFailPage_def)

lemma run_kinds:
  assumes "listeners s = [(b, ''click'')]" "timers s = []" "length pgs = 5"
  shows "map (eventType \<circ> snd) (newEvents s (exec p (Click b # map Timeout pgs) s)) =
           map (\<lambda>(pg, j). eventTypes p ! stepKind j)
             (filter (\<lambda>(pg, j). synthFailure p pg = None) (zip (reached p pgs) [0..4]))"
  unfolding newEvents_run_all[OF assms] kinds_of_steps ..

lemma run_synthetic:
  assumes "x \<in> set (newEvents s (exec p as s))"
  shows "synthetic p (snd x)"
  using exec_newEvents(2)[of s p as] assms by blast

lemma run_length_touch:
  assumes "listeners s = [(b, ''click'')]" "timers s = []" "length pgs = 5"
    "Touch_defined p \<and> TouchEvent_defined p"
    "\<forall>pg\<in>set pgs. new_Touch pg = None \<and> new_TouchEvent pg = None \<and> dispatchEvent pg = None"
  shows "length (newEvents s (exec p (Click b # map Timeout pgs) s)) = 5"
proof -
  from assms(4) have s: "supportTouchEvent p" by (simp add: supportTouchEvent_def)
  from assms(5) have "\<forall>pg\<in>set pgs. synthFailure p pg = None"
    by (auto intro: synthFailure_touch_NoneI[OF s])
  then show ?thesis by (rule run_length[OF assms(1,2,3)])
qed

lemma run_length_mouse:
  assumes "listeners s = [(b, ''click'')]" "timers s = []" "length pgs = 5"
    "\<not> (Touch_defined p \<and> TouchEvent_defined p)"
    "\<forall>pg\<in>set pgs. createEvent pg = None \<and> initMouseEvent pg = None \<and> dispatchEvent pg = None"
  shows "length (newEvents s (exec p (Click b # map Timeout pgs) s)) = 5"
proof -
  from assms(4) have s: "\<not> supportTouchEvent p" by (simp add: supportTouchEvent_def)
  from assms(5) have "\<forall>pg\<in>set pgs. synthFailure p pg = None"
    by (auto intro: synthFailure_mouse_NoneI[OF s])
  then show ?thesis by (rule run_length[OF assms(1,2,3)])
qed

section \<open>The claims\<close>

subsection \<open>C1: five events per run, in the order start, move, move, move, end\<close>

text \<open>
  C1, as amended. A run is a click on the trigger followed by the timer callbacks it
  schedules. When no platform call of the synthesizer throws during the run, exactly five
  events are dispatched, one per step 0..4; their types are, in order, entry 0 of the
  active event-type triple, then entry 2 three times, then entry 1, that is
  start, move, move, move, end. After the fifth callback no timer is pending (the check
  \<open>index === maxIterations\<close> at step 5 stopped the chain), so later timer ticks change
  nothing.
\<close>

theorem run_dispatches_five:
  assumes "listeners s = [(b, ''click'')]" "timers s = []" "length pgs = 5"
    "\<forall>pg\<in>set pgs. synthFailure p pg = None"
  shows "length (newEvents s (exec p (Click b # map Timeout pgs) s)) = 5
         \<and> map (eventType \<circ> snd) (newEvents s (exec p (Click b # map Timeout pgs) s)) =
           (if supportTouchEvent p
            then [''touchstart'', ''touchmove'', ''touchmove'', ''touchmove'', ''touchend'']
            else [''mousedown'', ''mousemove'', ''mousemove'', ''mousemove'', ''mouseup''])
         \<and> map (eventType \<circ> snd) (newEvents s (exec p (Click b # map Timeout pgs) s)) =
             (let eventTypes = (if supportTouchEvent p then touchEvents else mouseEvents)
              in [eventTypes ! 0, eventTypes ! 2, eventTypes ! 2, eventTypes ! 2, eventTypes ! 1])
         \<and> timers (exec p (Click b # map Timeout pgs) s) = []
         \<and> (\<forall>more. exec p (Click b # map Timeout (pgs @ more)) s =
                     exec p (Click b # map Timeout pgs) s)"
proof -
  from assms(3) obtain pg0 pg1 pg2 pg3 pg4 where pgs: "pgs = [pg0, pg1, pg2, pg3, pg4]"
    by (rule list5)
  from assms(4) have ok: "\<forall>pg\<in>set [pg0, pg1, pg2, pg3, pg4]. supportTouchEvent p \<or> synthFailure p pg = None"
    and f: "synthFailure p pg0 = None" "synthFailure p pg1 = None" "synthFailure p pg2 = None"
      "synthFailure p pg3 = None" "synthFailure p pg4 = None"
    unfolding pgs by simp_all
  let ?s' = "exec p (Click b # map Timeout pgs) s"
  have k: "map (eventType \<circ> snd) (newEvents s ?s') =
      [eventTypes p ! 0, eventTypes p ! 2, eventTypes p ! 2, eventTypes p ! 2, eventTypes p ! 1]"
    unfolding pgs run_newEvents[OF assms(1,2) ok] map_append
    by (simp only: synthesized_eventType[OF f(1)] synthesized_eventType[OF f(2)]
          synthesized_eventType[OF f(3)] synthesized_eventType[OF f(4)]
          synthesized_eventType[OF f(5)] stepKinds append.simps)
  from assms(4) have ok4: "\<forall>pg\<in>set pgs. supportTouchEvent p \<or> synthFailure p pg = None"
    by simp
  have t: "timers ?s' = []"
    unfolding run_state[OF assms(1,2,3) ok4] by simp
  have m: "exec p (Click b # map Timeout (pgs @ more)) s = ?s'" for more
  proof -
    have "exec p (Click b # map Timeout (pgs @ more)) s = exec p (map Timeout more) ?s'"
      using exec_append[of p "Click b # map Timeout pgs" "map Timeout more" s] by simp
    then show ?thesis by (simp only: exec_idle[OF t])
  qed
  from k have l: "length (newEvents s ?s') = 5"
    using length_map[of "eventType \<circ> snd" "newEvents s ?s'"] by simp
  from k l t m show ?thesis
    by (simp add: eventTypes_def touchEvents_def mouseEvents_def)
qed

theorem run_dispatches_five_witness:
  "listeners attached = [(7, ''click'')] \<and> timers attached = []
   \<and> length [okPage, okPage, okPage, okPage, okPage] = 5
   \<and> synthFailure touchPlatform okPage = None
   \<and> map (eventType \<circ> snd)
        (newEvents attached
          (exec touchPlatform (Click 7 # map Timeout [okPage, okPage, okPage, okPage, okPage]) attached)) =
       [''touchstart'', ''touchmove'', ''touchmove'', ''touchmove'', ''touchend'']"
proof -
  have h1: "listeners attached = [(7, ''click'')]" and h2: "timers attached = []" by simp_all
  have h3: "length [okPage, okPage, okPage, okPage, okPage] = 5" by simp
  have h4: "\<forall>pg\<in>set [okPage, okPage, okPage, okPage, okPage]. synthFailure touchPlatform pg = None"
    by simp
  from run_dispatches_five[OF h1 h2 h3 h4] h1 h2 h3 show ?thesis by simp
qed

text \<open>
  C1 as stated (every run dispatches exactly five events) fails where the touch API
  throws: with \<open>Touch\<close> defined but not constructible, each of the five steps catches a
  \<open>TypeError\<close> and dispatches nothing.
\<close>

theorem touch_constructor_illegal_no_events:
  "length (newEvents attached
     (exec touchPlatform
        (Click 7 # map Timeout [illegalPage, illegalPage, illegalPage, illegalPage, illegalPage])
        attached)) \<noteq> 5
   \<and> newEvents attached
     (exec touchPlatform
        (Click 7 # map Timeout [illegalPage, illegalPage, illegalPage, illegalPage, illegalPage])
        attached) = []
   \<and> console
     (exec touchPlatform
        (Click 7 # map Timeout [illegalPage, illegalPage, illegalPage, illegalPage, illegalPage])
        attached) =
       [console_error (TypeError ''Illegal constructor''),
        console_error (TypeError ''Illegal constructor''),
        console_error (TypeError ''Illegal constructor''),
        console_error (TypeError ''Illegal constructor''),
        console_error (TypeError ''Illegal constructor'')]"
proof -
  have r: "exec touchPlatform
        (Click 7 # map Timeout [illegalPage, illegalPage, illegalPage, illegalPage, illegalPage])
        attached =
      attached\<lparr>timers := [],
        dispatched := dispatched attached @ concat (map (\<lambda>(pg, j). synthesized touchPlatform pg j attached)
           (zip [illegalPage, illegalPage, illegalPage, illegalPage, illegalPage] [0..4])),
        console := console attached @ concat (map (logged touchPlatform)
           [illegalPage, illegalPage, illegalPage, illegalPage, illegalPage])\<rparr>"
    by (rule run_state) simp_all
  show ?thesis
    unfolding r newEvents_def upto_0_4
    by (simp add: synthesized_failed[OF synthFailure_illegalPage] logged_def)
qed

subsection \<open>C2: coordinates of the event of step i\<close>




subsection \<open>C3: the direction selector\<close>

text \<open>
  C3. \<open>init\<close> sets the swipe direction from the first \<open>ion-item-options\<close> only: it is
  \<open>toRight\<close> exactly when there is a first options panel and its \<open>side\<close> is the string
  \<open>start\<close>; for every other side (\<open>end\<close>, any other string, an undefined side) and
  when there is no options panel at all, it is \<open>toLeft\<close>.
\<close>

theorem direction_selector:
  "swipeDirection (init s) =
     Some (case itemOptionsList s of
             [] \<Rightarrow> toLeft
           | opt # _ \<Rightarrow> (if side opt = Some ''start'' then toRight else toLeft))
   \<and> ((swipeDirection (init s) = Some toRight) =
        (\<exists>opt rest. itemOptionsList s = opt # rest \<and> side opt = Some ''start''))
   \<and> ((swipeDirection (init s) = Some toLeft) =
        (\<not> (\<exists>opt rest. itemOptionsList s = opt # rest \<and> side opt = Some ''start'')))"
  by (cases "itemOptionsList s")
     (simp_all add: init_def first_def Let_def split: option.split)

subsection \<open>C4: a missing container aborts the setup\<close>

text \<open>
  C4. When there is no \<open>ion-item-sliding\<close> at setup, \<open>ngAfterViewInit\<close> throws the error
  of \<open>selfCheck\<close> in the state it started in: nothing was written, so \<open>init\<close> did not run
  and no listener was attached. From that state, with no listener and no timer
  registered before, no sequence of clicks and timer ticks changes anything: in
  particular a click on any element dispatches no event.
\<close>

theorem missing_container_aborts:
  assumes "itemSliding s = None" "listeners s = []" "timers s = []"
  shows "ngAfterViewInit s =
           Inl (Error ''RevealSlidingDirective: Missing ion-item-sliding node'', s)
         \<and> (\<forall>as. exec p as s = s)
         \<and> (\<forall>as. newEvents s (exec p as s) = [])"
proof -
  have "ngAfterViewInit s =
          Inl (Error ''RevealSlidingDirective: Missing ion-item-sliding node'', s)"
    using assms(1) by (simp add: ngAfterViewInit_def selfCheck_def)
  moreover have "exec p as s = s" for as
    by (rule exec_inert[OF assms(2,3)])
  ultimately show ?thesis by (simp add: newEvents_def)
qed

theorem missing_container_aborts_witness:
  "itemSliding (fresh\<lparr>itemSliding := None\<rparr>) = None
   \<and> listeners (fresh\<lparr>itemSliding := None\<rparr>) = []
   \<and> timers (fresh\<lparr>itemSliding := None\<rparr>) = []
   \<and> ngAfterViewInit (fresh\<lparr>itemSliding := None\<rparr>) =
       Inl (Error ''RevealSlidingDirective: Missing ion-item-sliding node'',
            fresh\<lparr>itemSliding := None\<rparr>)
   \<and> newEvents (fresh\<lparr>itemSliding := None\<rparr>)
        (exec touchPlatform [Click 7, Timeout okPage, Timeout okPage, Timeout okPage,
                             Timeout okPage, Timeout okPage]
           (fresh\<lparr>itemSliding := None\<rparr>)) = []"
proof -
  have h1: "itemSliding (fresh\<lparr>itemSliding := None\<rparr>) = None" by simp
  have h2: "listeners (fresh\<lparr>itemSliding := None\<rparr>) = []" by (simp add: fresh_def)
  have h3: "timers (fresh\<lparr>itemSliding := None\<rparr>) = []" by (simp add: fresh_def)
  from missing_container_aborts[OF h1 h2 h3, of touchPlatform] h1 h2 h3
  show ?thesis by simp
qed

subsection \<open>C5: one synthesis strategy per run\<close>

text \<open>
  C5, as amended. All events dispatched in a run are built by one strategy. If the
  globals \<open>Touch\<close> and \<open>TouchEvent\<close> are both defined, every dispatched event is a touch
  event of type \<open>touchstart\<close>, \<open>touchmove\<close> or \<open>touchend\<close>; if either is undefined,
  every dispatched event is a mouse event of type \<open>mousedown\<close>, \<open>mousemove\<close> or
  \<open>mouseup\<close>. This holds for every run, also one in which steps fail; the run has five
  events when no platform call of the strategy in use throws.
\<close>

theorem single_strategy:
  assumes "listeners s = [(b, ''click'')]" "timers s = []" "length pgs = 5"
  shows "(Touch_defined p \<and> TouchEvent_defined p \<longrightarrow>
            (\<forall>x\<in>set (newEvents s (exec p (Click b # map Timeout pgs) s)).
               \<exists>t. snd x = TouchEv t \<and>
                   touch_type t \<in> {''touchstart'', ''touchmove'', ''touchend''}))
         \<and> (\<not> (Touch_defined p \<and> TouchEvent_defined p) \<longrightarrow>
            (\<forall>x\<in>set (newEvents s (exec p (Click b # map Timeout pgs) s)).
               \<exists>m. snd x = MouseEv m \<and>
                   mouse_type m \<in> {''mousedown'', ''mousemove'', ''mouseup''}))
         \<and> (Touch_defined p \<and> TouchEvent_defined p \<and> (\<forall>pg\<in>set pgs. new_Touch pg = None \<and> new_TouchEvent pg = None \<and> dispatchEvent pg = None) \<longrightarrow>
              length (newEvents s (exec p (Click b # map Timeout pgs) s)) = 5)
         \<and> (\<not> (Touch_defined p \<and> TouchEvent_defined p) \<and> (\<forall>pg\<in>set pgs. createEvent pg = None \<and> initMouseEvent pg = None \<and> dispatchEvent pg = None) \<longrightarrow>
              length (newEvents s (exec p (Click b # map Timeout pgs) s)) = 5)"
proof (intro conjI impI ballI)
  let ?new = "newEvents s (exec p (Click b # map Timeout pgs) s)"
  have st: "supportTouchEvent p = (Touch_defined p \<and> TouchEvent_defined p)"
    by (simp add: supportTouchEvent_def)
  {
    fix x assume t: "Touch_defined p \<and> TouchEvent_defined p" and x: "x \<in> set ?new"
    from run_synthetic[OF x] t show "\<exists>t. snd x = TouchEv t \<and>
                   touch_type t \<in> {''touchstart'', ''touchmove'', ''touchend''}"
      by (cases "snd x") (auto simp: synthetic_def touchEvents_def st)
  }
  {
    fix x assume t: "\<not> (Touch_defined p \<and> TouchEvent_defined p)" and x: "x \<in> set ?new"
    from run_synthetic[OF x] t show "\<exists>m. snd x = MouseEv m \<and>
                   mouse_type m \<in> {''mousedown'', ''mousemove'', ''mouseup''}"
      by (cases "snd x") (auto simp: synthetic_def mouseEvents_def st)
  }
  {
    assume "Touch_defined p \<and> TouchEvent_defined p \<and> (\<forall>pg\<in>set pgs. new_Touch pg = None \<and> new_TouchEvent pg = None \<and> dispatchEvent pg = None)"
    then show "length ?new = 5" using run_length_touch[OF assms] by blast
  }
  {
    assume "\<not> (Touch_defined p \<and> TouchEvent_defined p) \<and> (\<forall>pg\<in>set pgs. createEvent pg = None \<and> initMouseEvent pg = None \<and> dispatchEvent pg = None)"
    then show "length ?new = 5" using run_length_mouse[OF assms] by blast
  }
qed

theorem single_strategy_witness:
  "listeners attached = [(7, ''click'')] \<and> timers attached = []
   \<and> length [okPage, okPage, okPage, okPage, okPage] = 5
   \<and> Touch_defined halfPlatform \<and> \<not> TouchEvent_defined halfPlatform
   \<and> createEvent okPage = None \<and> initMouseEvent okPage = None \<and> dispatchEvent okPage = None
   \<and> list_all (\<lambda>x. \<exists>m. snd x = MouseEv m \<and>
                      mouse_type m \<in> {''mousedown'', ''mousemove'', ''mouseup''})
        (newEvents attached
          (exec halfPlatform (Click 7 # map Timeout [okPage, okPage, okPage, okPage, okPage]) attached))
   \<and> length (newEvents attached
          (exec halfPlatform (Click 7 # map Timeout [okPage, okPage, okPage, okPage, okPage]) attached)) = 5
   \<and> Touch_defined touchPlatform \<and> TouchEvent_defined touchPlatform
   \<and> new_Touch okPage = None \<and> new_TouchEvent okPage = None
   \<and> list_all (\<lambda>x. \<exists>t. snd x = TouchEv t \<and>
                      touch_type t \<in> {''touchstart'', ''touchmove'', ''touchend''})
        (newEvents attached
          (exec touchPlatform (Click 7 # map Timeout [okPage, okPage, okPage, okPage, okPage]) attached))
   \<and> length (newEvents attached
          (exec touchPlatform (Click 7 # map Timeout [okPage, okPage, okPage, okPage, okPage]) attached)) = 5"
proof -
  have h1: "listeners attached = [(7, ''click'')]" and h2: "timers attached = []" by simp_all
  have h3: "length [okPage, okPage, okPage, okPage, okPage] = 5" by simp
  have hp: "Touch_defined halfPlatform" "\<not> TouchEvent_defined halfPlatform"
    by (simp_all add: halfPlatform_def)
  have tp: "Touch_defined touchPlatform" "TouchEvent_defined touchPlatform"
    by (simp_all add: touchPlatform_def)
  note c = single_strategy[OF h1 h2 h3]
  from c[of halfPlatform] hp have "\<forall>x\<in>set (newEvents attached
          (exec halfPlatform (Click 7 # map Timeout [okPage, okPage, okPage, okPage, okPage]) attached)).
               \<exists>m. snd x = MouseEv m \<and>
                   mouse_type m \<in> {''mousedown'', ''mousemove'', ''mouseup''}"
    by blast
  then have a: "list_all (\<lambda>x. \<exists>m. snd x = MouseEv m \<and>
                      mouse_type m \<in> {''mousedown'', ''mousemove'', ''mouseup''})
        (newEvents attached
          (exec halfPlatform (Click 7 # map Timeout [okPage, okPage, okPage, okPage, okPage]) attached))"
    unfolding list_all_iff .
  from c[of halfPlatform] hp have b: "length (newEvents attached
          (exec halfPlatform (Click 7 # map Timeout [okPage, okPage, okPage, okPage, okPage]) attached)) = 5"
    by simp
  from c[of touchPlatform] tp have "\<forall>x\<in>set (newEvents attached
          (exec touchPlatform (Click 7 # map Timeout [okPage, okPage, okPage, okPage, okPage]) attached)).
               \<exists>t. snd x = TouchEv t \<and>
                   touch_type t \<in> {''touchstart'', ''touchmove'', ''touchend''}"
    by blast
  then have a': "list_all (\<lambda>x. \<exists>t. snd x = TouchEv t \<and>
                      touch_type t \<in> {''touchstart'', ''touchmove'', ''touchend''})
        (newEvents attached
          (exec touchPlatform (Click 7 # map Timeout [okPage, okPage, okPage, okPage, okPage]) attached))"
    unfolding list_all_iff .
  from c[of touchPlatform] tp have b': "length (newEvents attached
          (exec touchPlatform (Click 7 # map Timeout [okPage, okPage, okPage, okPage, okPage]) attached)) = 5"
    by simp
  from h1 h2 h3 hp tp a b a' b' show ?thesis by simp
qed

text \<open>
  C5 as stated (all 5 events of a run are touch events when the platform supports touch)
  fails where a touch call throws: when \<open>new TouchEvent\<close> throws at step 1, the run
  dispatches four events, all of them touch events.
\<close>

theorem touch_event_constructor_throws_four_events:
  "length (newEvents attached
          (exec touchPlatform (Click 7 # map Timeout [okPage, noTouchEventPage, okPage, okPage, okPage]) attached)) \<noteq> 5
   \<and> map (eventType \<circ> snd) (newEvents attached
          (exec touchPlatform (Click 7 # map Timeout [okPage, noTouchEventPage, okPage, okPage, okPage]) attached)) =
       [''touchstart'', ''touchmove'', ''touchmove'', ''touchend'']"
proof -
  have len5: "length [okPage, noTouchEventPage, okPage, okPage, okPage] = 5" by simp
  have r: "reached touchPlatform [okPage, noTouchEventPage, okPage, okPage, okPage] =
      [okPage, noTouchEventPage, okPage, okPage, okPage]"
    by (simp add: reached_def)
  have k: "map (eventType \<circ> snd) (newEvents attached
          (exec touchPlatform (Click 7 # map Timeout [okPage, noTouchEventPage, okPage, okPage, okPage]) attached)) =
       [''touchstart'', ''touchmove'', ''touchmove'', ''touchend'']"
    unfolding run_kinds[of attached 7 "[okPage, noTouchEventPage, okPage, okPage, okPage]"
        touchPlatform, OF attached_fields(1,2) len5] r upto_0_4
    by (simp add: eventTypes_def touchEvents_def)
  from k have "length (newEvents attached
          (exec touchPlatform (Click 7 # map Timeout [okPage, noTouchEventPage, okPage, okPage, okPage]) attached)) = 4"
    using length_map[of "eventType \<circ> snd" "newEvents attached
          (exec touchPlatform (Click 7 # map Timeout [okPage, noTouchEventPage, okPage, okPage, okPage]) attached)"] by simp
  with k show ?thesis by simp
qed

subsection \<open>C6: failures of the touch strategy are caught, and the run goes on\<close>

text \<open>
  C6. \<open>sendTouchEvent\<close> never throws: whichever of \<open>new Touch\<close>, \<open>new TouchEvent\<close> and
  \<open>dispatchEvent\<close> raises, it returns normally. In a run under the touch strategy,
  whatever steps fail: nothing reaches the caller of the timer callback (\<open>uncaught\<close> is
  unchanged), the exceptions of the failing steps are logged with \<open>console.error\<close> in
  step order, all five callbacks run (no timer is left pending), and every step that does
  not fail dispatches the event of its own step, with the type of that step. So each
  of the five steps either dispatches its event or logs its exception.
\<close>

theorem touch_failures_are_caught:
  assumes "supportTouchEvent p" "listeners s = [(b, ''click'')]" "timers s = []"
    "length pgs = 5"
  shows "(\<forall>pg el ty x y s0. \<exists>s1. sendTouchEvent pg el ty x y s0 = Inr s1)
         \<and> uncaught (exec p (Click b # map Timeout pgs) s) = uncaught s
         \<and> console (exec p (Click b # map Timeout pgs) s) =
             console s @ map console_error (List.map_filter (synthFailure p) pgs)
         \<and> timers (exec p (Click b # map Timeout pgs) s) = []
         \<and> map (eventType \<circ> snd) (newEvents s (exec p (Click b # map Timeout pgs) s)) =
             map snd (filter (\<lambda>(pg, k). synthFailure p pg = None)
               (zip pgs [''touchstart'', ''touchmove'', ''touchmove'', ''touchmove'', ''touchend'']))
         \<and> length (newEvents s (exec p (Click b # map Timeout pgs) s))
             + length (List.map_filter (synthFailure p) pgs) = 5"
proof -
  let ?s' = "exec p (Click b # map Timeout pgs) s"
  have r: "reached p pgs = pgs" using assms(1) by (simp add: reached_def)
  note run = run_all[OF assms(2,3,4), of p, unfolded r logged_touch[OF assms(1)]
      thrown_touch[OF assms(1)]]
  have never: "\<forall>pg el ty x y s0. \<exists>s1. sendTouchEvent pg el ty x y s0 = Inr s1"
    by (simp add: sendTouchEvent_def Let_def split: option.split)
  have u: "uncaught ?s' = uncaught s" unfolding run by simp
  have c: "console ?s' = console s @ map console_error (List.map_filter (synthFailure p) pgs)"
    unfolding run by simp
  have t: "timers ?s' = []" unfolding run by simp
  have new: "newEvents s ?s' = concat (map (\<lambda>(pg, j). synthesized p pg j s) (zip pgs [0..4]))"
    unfolding newEvents_run_all[OF assms(2,3,4)] r ..
  have kinds: "map (\<lambda>j. eventTypes p ! stepKind j) [0, 1, 2, 3, 4] =
      [''touchstart'', ''touchmove'', ''touchmove'', ''touchmove'', ''touchend'']"
    using assms(1) by (simp add: eventTypes_def touchEvents_def)
  have k: "map (eventType \<circ> snd) (newEvents s ?s') =
             map snd (filter (\<lambda>(pg, k). synthFailure p pg = None)
               (zip pgs [''touchstart'', ''touchmove'', ''touchmove'', ''touchmove'', ''touchend'']))"
    unfolding new kinds_of_steps upto_0_4
      filter_zip_map[of "\<lambda>j. eventTypes p ! stepKind j" "\<lambda>pg. synthFailure p pg = None"]
      kinds ..
  have "length (newEvents s ?s') = length (filter (\<lambda>pg. synthFailure p pg = None) pgs)"
    using length_map[of "eventType \<circ> snd" "newEvents s ?s'"]
    unfolding k using assms(4) by (simp add: length_filter_zip)
  then have l: "length (newEvents s ?s') + length (List.map_filter (synthFailure p) pgs) = 5"
    using length_map_filter[of "synthFailure p" pgs] assms(4) by simp
  from never u c t k l show ?thesis by blast
qed

theorem touch_failures_are_caught_witness:
  "supportTouchEvent touchPlatform \<and> listeners attached = [(7, ''click'')]
   \<and> timers attached = [] \<and> length [okPage, illegalPage, okPage, illegalPage, okPage] = 5
   \<and> uncaught (exec touchPlatform
        (Click 7 # map Timeout [okPage, illegalPage, okPage, illegalPage, okPage]) attached) = []
   \<and> console (exec touchPlatform
        (Click 7 # map Timeout [okPage, illegalPage, okPage, illegalPage, okPage]) attached) =
       [console_error (TypeError ''Illegal constructor''),
        console_error (TypeError ''Illegal constructor'')]
   \<and> map (eventType \<circ> snd) (newEvents attached (exec touchPlatform
        (Click 7 # map Timeout [okPage, illegalPage, okPage, illegalPage, okPage]) attached)) =
       [''touchstart'', ''touchmove'', ''touchend'']"
proof -
  have h1: "supportTouchEvent touchPlatform" by simp
  have h2: "listeners attached = [(7, ''click'')]" and h3: "timers attached = []" by simp_all
  have h4: "length [okPage, illegalPage, okPage, illegalPage, okPage] = 5" by simp
  from touch_failures_are_caught[OF h1 h2 h3 h4] h1 h2 h3
  show ?thesis by (simp add: List.map_filter_simps)
qed

subsection \<open>C7: a missing trigger leaves the attachment inert\<close>

text \<open>
  C7. When \<open>querySelector\<close> finds no element with the marker attribute, \<open>init\<close> logs the
  warning that the attribute is missed and returns before \<open>renderer.listen\<close>: no
  trigger and no listener are registered, and from then on no sequence of clicks and
  timer ticks changes the state, so the sequencer never runs. When the container is
  present, this is what \<open>ngAfterViewInit\<close> does after the warnings of \<open>selfCheck\<close>, if
  any.
\<close>

theorem missing_trigger_inert:
  assumes "querySelector s ''ion-item *[appRevealSlidingButton]'' = None"
    "listeners s = []" "timers s = []"
  shows "console (init s) =
           console s @
           [console_warn ''RevealSlidingDirective: appRevealSlidingButton attribute is missed'']
         \<and> revealButton (init s) = None \<and> listeners (init s) = [] \<and> timers (init s) = []
         \<and> (\<forall>as. exec p as (init s) = init s)
         \<and> (\<forall>as. newEvents (init s) (exec p as (init s)) = [])
         \<and> (itemSliding s \<noteq> None \<longrightarrow>
             (\<exists>s'. ngAfterViewInit s = Inr s'
                \<and> console s' =
                    console s
                    @ (if length (itemOptionsList s) > 1
                       then [console_warn ''RevealSlidingDirective: Processing only a one ion-item-options element'']
                       else [])
                    @ (if length (itemOptionsList s) = 0
                       then [console_warn ''RevealSlidingDirective: Missing ion-item-options element'']
                       else [])
                    @ [console_warn ''RevealSlidingDirective: appRevealSlidingButton attribute is missed'']
                \<and> revealButton s' = None \<and> listeners s' = [] \<and> timers s' = []
                \<and> (\<forall>as. exec p as s' = s')
                \<and> (\<forall>as. newEvents s' (exec p as s') = [])))"
proof -
  note i = init_no_trigger[OF assms(1)]
  have i2: "listeners (init s) = []" and i3: "timers (init s) = []"
    using i(2,3) assms(2,3) by simp_all
  have e: "exec p as (init s) = init s" for as
    by (rule exec_inert[OF i2 i3])
  have direct: "console (init s) =
           console s @
           [console_warn ''RevealSlidingDirective: appRevealSlidingButton attribute is missed'']
         \<and> revealButton (init s) = None \<and> listeners (init s) = [] \<and> timers (init s) = []
         \<and> (\<forall>as. exec p as (init s) = init s)
         \<and> (\<forall>as. newEvents (init s) (exec p as (init s)) = [])"
    using i(1,4) i2 i3 e by simp
  have whole: "\<exists>s'. ngAfterViewInit s = Inr s'
                \<and> console s' =
                    console s
                    @ (if length (itemOptionsList s) > 1
                       then [console_warn ''RevealSlidingDirective: Processing only a one ion-item-options element'']
                       else [])
                    @ (if length (itemOptionsList s) = 0
                       then [console_warn ''RevealSlidingDirective: Missing ion-item-options element'']
                       else [])
                    @ [console_warn ''RevealSlidingDirective: appRevealSlidingButton attribute is missed'']
                \<and> revealButton s' = None \<and> listeners s' = [] \<and> timers s' = []
                \<and> (\<forall>as. exec p as s' = s')
                \<and> (\<forall>as. newEvents s' (exec p as s') = [])"
    if c: "itemSliding s \<noteq> None"
  proof -
    let ?s1 = "s\<lparr>console :=
         console s
         @ (if length (itemOptionsList s) > 1
            then [console_warn ''RevealSlidingDirective: Processing only a one ion-item-options element'']
            else [])
         @ (if length (itemOptionsList s) = 0
            then [console_warn ''RevealSlidingDirective: Missing ion-item-options element'']
            else [])\<rparr>"
    let ?s' = "init ?s1"
    have q: "querySelector ?s1 ''ion-item *[appRevealSlidingButton]'' = None"
      using assms(1) by simp
    note j = init_no_trigger[OF q]
    have n: "ngAfterViewInit s = Inr ?s'"
      by (simp add: ngAfterViewInit_def selfCheck_returns[OF c])
    have j2: "listeners ?s' = []" and j3: "timers ?s' = []"
      using j(2,3) assms(2,3) by simp_all
    have f: "exec p as ?s' = ?s'" for as
      by (rule exec_inert[OF j2 j3])
    have "console ?s' =
                    console s
                    @ (if length (itemOptionsList s) > 1
                       then [console_warn ''RevealSlidingDirective: Processing only a one ion-item-options element'']
                       else [])
                    @ (if length (itemOptionsList s) = 0
                       then [console_warn ''RevealSlidingDirective: Missing ion-item-options element'']
                       else [])
                    @ [console_warn ''RevealSlidingDirective: appRevealSlidingButton attribute is missed'']"
      unfolding j(4) by simp
    with n j(1) j2 j3 f show ?thesis by (intro exI[of _ ?s']) simp
  qed
  from direct whole show ?thesis by blast
qed

theorem missing_trigger_inert_witness:
  "querySelector noTrigger ''ion-item *[appRevealSlidingButton]'' = None
   \<and> listeners noTrigger = [] \<and> timers noTrigger = [] \<and> itemSliding noTrigger \<noteq> None
   \<and> console (init noTrigger) =
       [console_warn ''RevealSlidingDirective: appRevealSlidingButton attribute is missed'']
   \<and> listeners (init noTrigger) = []
   \<and> newEvents (init noTrigger)
        (exec touchPlatform [Click 7, Timeout okPage, Timeout okPage] (init noTrigger)) = []
   \<and> (\<exists>s'. ngAfterViewInit noTrigger = Inr s'
          \<and> console s' =
               [console_warn ''RevealSlidingDirective: appRevealSlidingButton attribute is missed'']
          \<and> listeners s' = []
          \<and> newEvents s' (exec touchPlatform [Click 7, Timeout okPage, Timeout okPage] s') = [])"
proof -
  have h1: "querySelector noTrigger ''ion-item *[appRevealSlidingButton]'' = None"
    and h2: "listeners noTrigger = []" and h3: "timers noTrigger = []"
    and h4: "itemSliding noTrigger \<noteq> None"
    by (simp_all add: noTrigger_def fresh_def)
  have c: "console noTrigger = []" "length (itemOptionsList noTrigger) = 1"
    by (simp_all add: noTrigger_def fresh_def)
  note m = missing_trigger_inert[OF h1 h2 h3, of touchPlatform, unfolded c]
  from m have a: "console (init noTrigger) =
       [console_warn ''RevealSlidingDirective: appRevealSlidingButton attribute is missed'']"
    and b: "listeners (init noTrigger) = []"
    and d: "newEvents (init noTrigger)
        (exec touchPlatform [Click 7, Timeout okPage, Timeout okPage] (init noTrigger)) = []"
    by simp_all
  from m h4 obtain s' where "ngAfterViewInit noTrigger = Inr s'"
    "console s' =
       [console_warn ''RevealSlidingDirective: appRevealSlidingButton attribute is missed'']"
    "listeners s' = []" "\<forall>as. newEvents s' (exec touchPlatform as s') = []"
    by auto
  then have "\<exists>s'. ngAfterViewInit noTrigger = Inr s'
          \<and> console s' =
               [console_warn ''RevealSlidingDirective: appRevealSlidingButton attribute is missed'']
          \<and> listeners s' = []
          \<and> newEvents s' (exec touchPlatform [Click 7, Timeout okPage, Timeout okPage] s') = []"
    by blast
  with h1 h2 h3 h4 a b d show ?thesis by blast
qed

subsection \<open>C8: the direction is fixed after the setup\<close>

text \<open>
  C8. Only \<open>init\<close> writes \<open>swipeDirection\<close> and \<open>revealButton\<close>. The sequencer
  (\<open>sendEvents\<close>, the timer callback) and the synthesizer (\<open>sendEventsDispatcher\<close>,
  \<open>sendTouchEvent\<close>, \<open>sendMouseEvent\<close>) leave both as they were, whether they return or
  throw, and so does every sequence of clicks and timer ticks: all runs of an attachment
  use the direction computed at the setup.
\<close>

theorem direction_never_modified:
  "swipeDirection (exec p as s) = swipeDirection s
   \<and> revealButton (exec p as s) = revealButton s
   \<and> swipeDirection (sendEvents i s) = swipeDirection s
   \<and> revealButton (sendEvents i s) = revealButton s
   \<and> swipeDirection (stateOf (timeoutCallback p pg i s)) = swipeDirection s
   \<and> revealButton (stateOf (timeoutCallback p pg i s)) = revealButton s
   \<and> swipeDirection (stateOf (sendEventsDispatcher p pg i m s)) = swipeDirection s
   \<and> revealButton (stateOf (sendEventsDispatcher p pg i m s)) = revealButton s
   \<and> swipeDirection (stateOf (sendTouchEvent pg el ty x y s)) = swipeDirection s
   \<and> revealButton (stateOf (sendTouchEvent pg el ty x y s)) = revealButton s
   \<and> swipeDirection (stateOf (sendMouseEvent pg el ty x y s)) = swipeDirection s
   \<and> revealButton (stateOf (sendMouseEvent pg el ty x y s)) = revealButton s"
  by (simp add: exec_frame sendEvents_eq timeoutCallback_frame sendEventsDispatcher_frame
        sendTouchEvent_frame sendMouseEvent_frame)

subsection \<open>C9: overlapping runs are independent\<close>

text \<open>
  C9, as amended. Let a second click arrive after \<open>k < 5\<close> callbacks of a first run, and
  let no platform call of the synthesizer throw. When the second click arrives the timer
  of the first run is still pending, and the click appends a timer of its own behind it:
  nothing is cancelled or merged. After the remaining \<open>10 - k\<close> callbacks no timer is
  pending and exactly ten events were dispatched; their types are those of two complete
  runs (two start events, six move events, two end events).
\<close>

theorem overlapping_runs_independent:
  assumes "listeners s = [(b, ''click'')]" "timers s = []"
    "length ps1 < 5" "length ps1 + length ps2 = 10"
    "\<forall>pg\<in>set (ps1 @ ps2). synthFailure p pg = None"
  shows "timers (exec p (Click b # map Timeout ps1) s) \<noteq> []
         \<and> timers (exec p (Click b # map Timeout ps1 @ [Click b]) s) =
             timers (exec p (Click b # map Timeout ps1) s) @ [\<lparr>captured_index = 0, delay = 10\<rparr>]
         \<and> timers (exec p (Click b # map Timeout ps1 @ Click b # map Timeout ps2) s) = []
         \<and> length (newEvents s
              (exec p (Click b # map Timeout ps1 @ Click b # map Timeout ps2) s)) = 10
         \<and> mset (map (eventType \<circ> snd) (newEvents s
              (exec p (Click b # map Timeout ps1 @ Click b # map Timeout ps2) s))) =
             (if supportTouchEvent p
              then mset [''touchstart'', ''touchmove'', ''touchmove'', ''touchmove'', ''touchend'',
                         ''touchstart'', ''touchmove'', ''touchmove'', ''touchmove'', ''touchend'']
              else mset [''mousedown'', ''mousemove'', ''mousemove'', ''mousemove'', ''mouseup'',
                         ''mousedown'', ''mousemove'', ''mousemove'', ''mousemove'', ''mouseup''])"
proof -
  let ?K = "owed p (pending 0)"
  let ?s1 = "click b s"
  let ?s2 = "exec p (map Timeout ps1) ?s1"
  let ?s3 = "click b ?s2"
  let ?s4 = "exec p (map Timeout ps2) ?s3"
  from assms(5) have ok1: "\<forall>pg\<in>set ps1. synthFailure p pg = None"
    and ok2: "\<forall>pg\<in>set ps2. synthFailure p pg = None" by simp_all
  have e2: "exec p (Click b # map Timeout ps1) s = ?s2"
    by (simp add: exec_Cons)
  have e3: "exec p (Click b # map Timeout ps1 @ [Click b]) s = ?s3"
    using exec_append[of p "Click b # map Timeout ps1" "[Click b]" s]
    by (simp add: exec_Cons)
  have e4: "exec p (Click b # map Timeout ps1 @ Click b # map Timeout ps2) s = ?s4"
    using exec_append[of p "Click b # map Timeout ps1" "Click b # map Timeout ps2" s]
    by (simp add: exec_Cons)
  \<comment> \<open>after the first click\<close>
  note c1 = click_owed[OF assms(1)]
  have t1: "timers ?s1 = pending 0" unfolding c1(1) assms(2) by simp
  have v1: "\<forall>t\<in>set (timers ?s1). captured_index t \<le> 4" unfolding t1 by simp
  \<comment> \<open>after \<open>k\<close> callbacks of the first run\<close>
  note r2 = exec_Timeouts_owed[OF v1 ok1]
  have k2: "kinds (dispatched ?s2) + owed p (timers ?s2) = kinds (dispatched s) + ?K"
    using r2 unfolding t1 c1(2) by simp
  have v2: "\<forall>t\<in>set (timers ?s2). captured_index t \<le> 4" using r2 by simp
  have z2: "size (owed p (timers ?s2)) = 5 - length ps1"
    using r2 unfolding t1 size_owed_pending_0 by simp
  have n2: "timers ?s2 \<noteq> []"
  proof
    assume "timers ?s2 = []"
    then have "size (owed p (timers ?s2)) = 0" by simp
    with z2 assms(3) show False by simp
  qed
  \<comment> \<open>the second click\<close>
  have l2: "listeners ?s2 = [(b, ''click'')]"
    unfolding exec_frame(4) c1(3) by (rule assms(1))
  note c3 = click_owed[OF l2]
  have t3: "timers ?s3 = timers ?s2 @ pending 0" unfolding c3(1) by simp
  have v3: "\<forall>t\<in>set (timers ?s3). captured_index t \<le> 4" unfolding c3(1) using v2 by simp
  have z3: "size (owed p (timers ?s3)) = 10 - length ps1"
    unfolding t3 owed_append size_union z2 size_owed_pending_0 using assms(3) by simp
  \<comment> \<open>the remaining callbacks of both runs\<close>
  note r4 = exec_Timeouts_owed[OF v3 ok2]
  have z4: "size (owed p (timers ?s4)) = 0"
    using r4 unfolding z3 using assms(4) by simp
  then have o4: "owed p (timers ?s4) = {#}" by simp
  have v4: "\<forall>t\<in>set (timers ?s4). captured_index t \<le> 4" using r4 by simp
  have t4: "timers ?s4 = []" by (rule owed_empty[OF v4 o4])
  have "kinds (dispatched ?s4) + owed p (timers ?s4) = kinds (dispatched ?s3) + owed p (timers ?s3)"
    using r4 by simp
  then have k4: "kinds (dispatched ?s4) = kinds (dispatched s) + ?K + ?K"
    unfolding o4 t3 owed_append c3(2) using k2 by (simp add: ac_simps)
  have d: "dispatched ?s4 = dispatched s @ newEvents s ?s4"
    using exec_newEvents(1)[of p "Click b # map Timeout ps1 @ Click b # map Timeout ps2" s]
    unfolding e4 .
  have "kinds (dispatched s) + kinds (newEvents s ?s4) = kinds (dispatched s) + (?K + ?K)"
    using k4 unfolding kinds_def by (subst (asm) d) (simp add: ac_simps)
  then have kn: "kinds (newEvents s ?s4) = ?K + ?K" by simp
  have K: "?K + ?K =
             (if supportTouchEvent p
              then mset [''touchstart'', ''touchmove'', ''touchmove'', ''touchmove'', ''touchend'',
                         ''touchstart'', ''touchmove'', ''touchmove'', ''touchmove'', ''touchend'']
              else mset [''mousedown'', ''mousemove'', ''mousemove'', ''mousemove'', ''mouseup'',
                         ''mousedown'', ''mousemove'', ''mousemove'', ''mousemove'', ''mouseup''])"
    by (simp add: owed_def upto_0_4 eventTypes_def touchEvents_def mouseEvents_def)
  have "size (kinds (newEvents s ?s4)) = 10"
    unfolding kn size_union size_owed_pending_0 by simp
  then have len: "length (newEvents s ?s4) = 10" by (simp add: kinds_def)
  from kn K have ms: "mset (map (eventType \<circ> snd) (newEvents s ?s4)) =
             (if supportTouchEvent p
              then mset [''touchstart'', ''touchmove'', ''touchmove'', ''touchmove'', ''touchend'',
                         ''touchstart'', ''touchmove'', ''touchmove'', ''touchmove'', ''touchend'']
              else mset [''mousedown'', ''mousemove'', ''mousemove'', ''mousemove'', ''mouseup'',
                         ''mousedown'', ''mousemove'', ''mousemove'', ''mousemove'', ''mouseup''])"
    unfolding kinds_def by simp
  have a3: "timers ?s3 = timers ?s2 @ [\<lparr>captured_index = 0, delay = 10\<rparr>]" by (rule c3(1))
  show ?thesis
    unfolding e2 e3 e4 using n2 a3 t4 len ms by blast
qed

theorem overlapping_runs_independent_witness:
  "listeners attached = [(7, ''click'')] \<and> timers attached = []
   \<and> length [okPage, okPage] < 5
   \<and> length [okPage, okPage] + length [okPage, okPage, okPage, okPage, okPage, okPage, okPage, okPage] = 10
   \<and> synthFailure touchPlatform okPage = None
   \<and> length (newEvents attached
        (exec touchPlatform
           (Click 7 # map Timeout [okPage, okPage] @
            Click 7 # map Timeout [okPage, okPage, okPage, okPage, okPage, okPage, okPage, okPage])
           attached)) = 10
   \<and> timers (exec touchPlatform
           (Click 7 # map Timeout [okPage, okPage] @
            Click 7 # map Timeout [okPage, okPage, okPage, okPage, okPage, okPage, okPage, okPage])
           attached) = []"
proof -
  have h1: "listeners attached = [(7, ''click'')]" and h2: "timers attached = []" by simp_all
  have h3: "length [okPage, okPage] < 5" by simp
  have h4: "length [okPage, okPage] +
      length [okPage, okPage, okPage, okPage, okPage, okPage, okPage, okPage] = 10" by simp
  have h5: "\<forall>pg\<in>set ([okPage, okPage] @
      [okPage, okPage, okPage, okPage, okPage, okPage, okPage, okPage]).
        synthFailure touchPlatform pg = None" by simp
  from overlapping_runs_independent[OF h1 h2 h3 h4 h5] h1 h2 h3 h4
  show ?thesis by simp
qed

text \<open>
  C9 as stated (ten events for two overlapping runs) fails where the touch API throws:
  both runs execute all their steps, each step logs a \<open>TypeError\<close>, and no event is
  dispatched.
\<close>

theorem overlapping_runs_touch_illegal_no_events:
  "length (newEvents attached
     (exec touchPlatform
        (Click 7 # map Timeout [illegalPage, illegalPage] @
         Click 7 # map Timeout [illegalPage, illegalPage, illegalPage, illegalPage,
                                illegalPage, illegalPage, illegalPage, illegalPage])
        attached)) \<noteq> 10
   \<and> newEvents attached
     (exec touchPlatform
        (Click 7 # map Timeout [illegalPage, illegalPage] @
         Click 7 # map Timeout [illegalPage, illegalPage, illegalPage, illegalPage,
                                illegalPage, illegalPage, illegalPage, illegalPage])
        attached) = []"
proof -
  have "dispatched (exec touchPlatform
        (Click 7 # map Timeout [illegalPage, illegalPage] @
         Click 7 # map Timeout [illegalPage, illegalPage, illegalPage, illegalPage,
                                illegalPage, illegalPage, illegalPage, illegalPage])
        attached) = dispatched attached"
    by (rule touch_all_fail_no_events) auto
  then show ?thesis by (simp add: newEvents_def)
qed

subsection \<open>C10: modifier keys of the synthetic events\<close>

text \<open>
  C10, as amended. \<open>sendTouchEvent\<close>, when none of its calls throws, dispatches exactly
  one event, a touch event with \<open>shiftKey = true\<close> and an empty \<open>targetTouches\<close> list,
  and it never dispatches any other event; \<open>sendMouseEvent\<close>, when none of its calls
  throws, dispatches exactly one event, a mouse event with the four modifier keys false,
  and it never dispatches any other event. Hence every event dispatched in a run has
  these properties. A run under the touch strategy in which no touch call throws has five
  events, each a touch event with the shift modifier set; a run under the mouse strategy
  in which no mouse call throws has five events, each a mouse event with no modifier set.
\<close>

theorem modifier_keys:
  assumes "listeners s = [(b, ''click'')]" "timers s = []" "length pgs = 5"
  shows "(\<forall>x\<in>set (newEvents s0 (stateOf (sendTouchEvent pg el ty x0 y0 s0))).
            \<exists>t. snd x = TouchEv t \<and> shiftKey t \<and> targetTouches t = [])
         \<and> (new_Touch pg = None \<and> new_TouchEvent pg = None \<and> dispatchEvent pg = None \<longrightarrow>
            (\<exists>t. newEvents s0 (stateOf (sendTouchEvent pg el ty x0 y0 s0)) = [(el, TouchEv t)] \<and>
                 shiftKey t \<and> targetTouches t = []))
         \<and> (\<forall>x\<in>set (newEvents s0 (stateOf (sendMouseEvent pg el ty x0 y0 s0))).
            \<exists>m. snd x = MouseEv m \<and> \<not> mouse_ctrlKey m \<and> \<not> mouse_altKey m \<and>
                \<not> mouse_shiftKey m \<and> \<not> mouse_metaKey m)
         \<and> (createEvent pg = None \<and> initMouseEvent pg = None \<and> dispatchEvent pg = None \<longrightarrow>
            (\<exists>m. newEvents s0 (stateOf (sendMouseEvent pg el ty x0 y0 s0)) = [(el, MouseEv m)] \<and>
                 \<not> mouse_ctrlKey m \<and> \<not> mouse_altKey m \<and>
                \<not> mouse_shiftKey m \<and> \<not> mouse_metaKey m))
         \<and> (\<forall>x\<in>set (newEvents s (exec p (Click b # map Timeout pgs) s)).
            case snd x of
              TouchEv t \<Rightarrow> shiftKey t \<and> targetTouches t = []
            | MouseEv m \<Rightarrow> \<not> mouse_ctrlKey m \<and> \<not> mouse_altKey m \<and>
                \<not> mouse_shiftKey m \<and> \<not> mouse_metaKey m)
         \<and> (Touch_defined p \<and> TouchEvent_defined p \<and> (\<forall>pg\<in>set pgs. new_Touch pg = None \<and> new_TouchEvent pg = None \<and> dispatchEvent pg = None) \<longrightarrow>
              length (newEvents s (exec p (Click b # map Timeout pgs) s)) = 5 \<and>
              (\<forall>x\<in>set (newEvents s (exec p (Click b # map Timeout pgs) s)).
                 \<exists>t. snd x = TouchEv t \<and> shiftKey t \<and> targetTouches t = []))
         \<and> (\<not> (Touch_defined p \<and> TouchEvent_defined p) \<and> (\<forall>pg\<in>set pgs. createEvent pg = None \<and> initMouseEvent pg = None \<and> dispatchEvent pg = None) \<longrightarrow>
              length (newEvents s (exec p (Click b # map Timeout pgs) s)) = 5 \<and>
              (\<forall>x\<in>set (newEvents s (exec p (Click b # map Timeout pgs) s)).
                 \<exists>m. snd x = MouseEv m \<and> \<not> mouse_ctrlKey m \<and> \<not> mouse_altKey m \<and>
                \<not> mouse_shiftKey m \<and> \<not> mouse_metaKey m))"
proof -
  let ?new = "newEvents s (exec p (Click b # map Timeout pgs) s)"
  have st: "supportTouchEvent p = (Touch_defined p \<and> TouchEvent_defined p)"
    by (simp add: supportTouchEvent_def)
  have f1: "(\<forall>x\<in>set (newEvents s0 (stateOf (sendTouchEvent pg el ty x0 y0 s0))).
            \<exists>t. snd x = TouchEv t \<and> shiftKey t \<and> targetTouches t = [])"
    by (simp add: sendTouchEvent_def stateOf_def newEvents_def Let_def split: option.split)
  have f2: "(new_Touch pg = None \<and> new_TouchEvent pg = None \<and> dispatchEvent pg = None \<longrightarrow>
            (\<exists>t. newEvents s0 (stateOf (sendTouchEvent pg el ty x0 y0 s0)) = [(el, TouchEv t)] \<and>
                 shiftKey t \<and> targetTouches t = []))"
    by (simp add: sendTouchEvent_def stateOf_def newEvents_def Let_def)
  have f3: "(\<forall>x\<in>set (newEvents s0 (stateOf (sendMouseEvent pg el ty x0 y0 s0))).
            \<exists>m. snd x = MouseEv m \<and> \<not> mouse_ctrlKey m \<and> \<not> mouse_altKey m \<and>
                \<not> mouse_shiftKey m \<and> \<not> mouse_metaKey m)"
    by (simp add: sendMouseEvent_def stateOf_def newEvents_def Let_def split: option.split)
  have f4: "(createEvent pg = None \<and> initMouseEvent pg = None \<and> dispatchEvent pg = None \<longrightarrow>
            (\<exists>m. newEvents s0 (stateOf (sendMouseEvent pg el ty x0 y0 s0)) = [(el, MouseEv m)] \<and>
                 \<not> mouse_ctrlKey m \<and> \<not> mouse_altKey m \<and>
                \<not> mouse_shiftKey m \<and> \<not> mouse_metaKey m))"
    by (simp add: sendMouseEvent_def stateOf_def newEvents_def Let_def)
  have r1: "(\<forall>x\<in>set (newEvents s (exec p (Click b # map Timeout pgs) s)).
            case snd x of
              TouchEv t \<Rightarrow> shiftKey t \<and> targetTouches t = []
            | MouseEv m \<Rightarrow> \<not> mouse_ctrlKey m \<and> \<not> mouse_altKey m \<and>
                \<not> mouse_shiftKey m \<and> \<not> mouse_metaKey m)"
  proof
    fix x assume "x \<in> set ?new"
    from run_synthetic[OF this] show "case snd x of
              TouchEv t \<Rightarrow> shiftKey t \<and> targetTouches t = []
            | MouseEv m \<Rightarrow> \<not> mouse_ctrlKey m \<and> \<not> mouse_altKey m \<and>
                \<not> mouse_shiftKey m \<and> \<not> mouse_metaKey m"
      by (cases "snd x") (simp_all add: synthetic_def)
  qed
  have r2: "(Touch_defined p \<and> TouchEvent_defined p \<and> (\<forall>pg\<in>set pgs. new_Touch pg = None \<and> new_TouchEvent pg = None \<and> dispatchEvent pg = None) \<longrightarrow>
              length (newEvents s (exec p (Click b # map Timeout pgs) s)) = 5 \<and>
              (\<forall>x\<in>set (newEvents s (exec p (Click b # map Timeout pgs) s)).
                 \<exists>t. snd x = TouchEv t \<and> shiftKey t \<and> targetTouches t = []))"
  proof (intro impI conjI ballI)
    assume a: "Touch_defined p \<and> TouchEvent_defined p \<and> (\<forall>pg\<in>set pgs. new_Touch pg = None \<and> new_TouchEvent pg = None \<and> dispatchEvent pg = None)"
    then show "length ?new = 5" using run_length_touch[OF assms] by blast
    fix x assume "x \<in> set ?new"
    from run_synthetic[OF this] a
    show "\<exists>t. snd x = TouchEv t \<and> shiftKey t \<and> targetTouches t = []"
      by (cases "snd x") (simp_all add: synthetic_def st)
  qed
  have r3: "(\<not> (Touch_defined p \<and> TouchEvent_defined p) \<and> (\<forall>pg\<in>set pgs. createEvent pg = None \<and> initMouseEvent pg = None \<and> dispatchEvent pg = None) \<longrightarrow>
              length (newEvents s (exec p (Click b # map Timeout pgs) s)) = 5 \<and>
              (\<forall>x\<in>set (newEvents s (exec p (Click b # map Timeout pgs) s)).
                 \<exists>m. snd x = MouseEv m \<and> \<not> mouse_ctrlKey m \<and> \<not> mouse_altKey m \<and>
                \<not> mouse_shiftKey m \<and> \<not> mouse_metaKey m))"
  proof (intro impI conjI ballI)
    assume a: "\<not> (Touch_defined p \<and> TouchEvent_defined p) \<and> (\<forall>pg\<in>set pgs. createEvent pg = None \<and> initMouseEvent pg = None \<and> dispatchEvent pg = None)"
    then show "length ?new = 5" using run_length_mouse[OF assms] by blast
    fix x assume "x \<in> set ?new"
    from run_synthetic[OF this] a
    show "\<exists>m. snd x = MouseEv m \<and> \<not> mouse_ctrlKey m \<and> \<not> mouse_altKey m \<and>
                \<not> mouse_shiftKey m \<and> \<not> mouse_metaKey m"
      by (cases "snd x") (simp_all add: synthetic_def st)
  qed
  from f1 f2 f3 f4 r1 r2 r3 show ?thesis by (intro conjI)
qed

theorem modifier_keys_witness:
  "listeners attached = [(7, ''click'')] \<and> timers attached = []
   \<and> length [okPage, okPage, okPage, okPage, okPage] = 5
   \<and> Touch_defined touchPlatform \<and> TouchEvent_defined touchPlatform
   \<and> new_Touch okPage = None \<and> new_TouchEvent okPage = None \<and> dispatchEvent okPage = None
   \<and> list_all (\<lambda>x. \<exists>t. snd x = TouchEv t \<and> shiftKey t \<and> targetTouches t = [])
        (newEvents attached
          (exec touchPlatform (Click 7 # map Timeout [okPage, okPage, okPage, okPage, okPage]) attached))
   \<and> length (newEvents attached
          (exec touchPlatform (Click 7 # map Timeout [okPage, okPage, okPage, okPage, okPage]) attached)) = 5
   \<and> \<not> (Touch_defined mousePlatform \<and> TouchEvent_defined mousePlatform)
   \<and> createEvent okPage = None \<and> initMouseEvent okPage = None
   \<and> list_all (\<lambda>x. \<exists>m. snd x = MouseEv m \<and> \<not> mouse_ctrlKey m \<and> \<not> mouse_altKey m \<and>
                \<not> mouse_shiftKey m \<and> \<not> mouse_metaKey m)
        (newEvents attached
          (exec mousePlatform (Click 7 # map Timeout [okPage, okPage, okPage, okPage, okPage]) attached))
   \<and> length (newEvents attached
          (exec mousePlatform (Click 7 # map Timeout [okPage, okPage, okPage, okPage, okPage]) attached)) = 5"
proof -
  have h1: "listeners attached = [(7, ''click'')]" and h2: "timers attached = []" by simp_all
  have h3: "length [okPage, okPage, okPage, okPage, okPage] = 5" by simp
  have tp: "Touch_defined touchPlatform" "TouchEvent_defined touchPlatform"
    by (simp_all add: touchPlatform_def)
  have mp: "\<not> (Touch_defined mousePlatform \<and> TouchEvent_defined mousePlatform)"
    by (simp add: mousePlatform_def)
  note c = modifier_keys[OF h1 h2 h3]
  from c[of _ _ _ _ _ _ touchPlatform] tp
  have b: "length (newEvents attached
          (exec touchPlatform (Click 7 # map Timeout [okPage, okPage, okPage, okPage, okPage]) attached)) = 5"
    and "\<forall>x\<in>set (newEvents attached
          (exec touchPlatform (Click 7 # map Timeout [okPage, okPage, okPage, okPage, okPage]) attached)).
               \<exists>t. snd x = TouchEv t \<and> shiftKey t \<and> targetTouches t = []"
    by simp_all
  then have a: "list_all (\<lambda>x. \<exists>t. snd x = TouchEv t \<and> shiftKey t \<and> targetTouches t = [])
        (newEvents attached
          (exec touchPlatform (Click 7 # map Timeout [okPage, okPage, okPage, okPage, okPage]) attached))"
    unfolding list_all_iff by blast
  from c[of _ _ _ _ _ _ mousePlatform] mp
  have b': "length (newEvents attached
          (exec mousePlatform (Click 7 # map Timeout [okPage, okPage, okPage, okPage, okPage]) attached)) = 5"
    and "\<forall>x\<in>set (newEvents attached
          (exec mousePlatform (Click 7 # map Timeout [okPage, okPage, okPage, okPage, okPage]) attached)).
               \<exists>m. snd x = MouseEv m \<and> \<not> mouse_ctrlKey m \<and> \<not> mouse_altKey m \<and>
                \<not> mouse_shiftKey m \<and> \<not> mouse_metaKey m"
    by simp_all
  then have a': "list_all (\<lambda>x. \<exists>m. snd x = MouseEv m \<and> \<not> mouse_ctrlKey m \<and> \<not> mouse_altKey m \<and>
                \<not> mouse_shiftKey m \<and> \<not> mouse_metaKey m)
        (newEvents attached
          (exec mousePlatform (Click 7 # map Timeout [okPage, okPage, okPage, okPage, okPage]) attached))"
    unfolding list_all_iff by blast
  from h1 h2 h3 tp mp a b a' b' show ?thesis by simp
qed

text \<open>
  C10 as stated (under the touch strategy all 5 events of a run carry the shift
  modifier) fails where a touch call throws: when \<open>dispatchEvent\<close> throws at the last
  step, the run dispatches four events.
\<close>

theorem dispatch_throws_four_shift_events:
  "length (newEvents attached
          (exec touchPlatform (Click 7 # map Timeout [okPage, okPage, okPage, okPage, dispatchFailPage]) attached)) \<noteq> 5
   \<and> map (eventType \<circ> snd) (newEvents attached
          (exec touchPlatform (Click 7 # map Timeout [okPage, okPage, okPage, okPage, dispatchFailPage]) attached)) =
       [''touchstart'', ''touchmove'', ''touchmove'', ''touchmove'']"
proof -
  have len5: "length [okPage, okPage, okPage, okPage, dispatchFailPage] = 5" by simp
  have r: "reached touchPlatform [okPage, okPage, okPage, okPage, dispatchFailPage] =
      [okPage, okPage, okPage, okPage, dispatchFailPage]"
    by (simp add: reached_def)
  have k: "map (eventType \<circ> snd) (newEvents attached
          (exec touchPlatform (Click 7 # map Timeout [okPage, okPage, okPage, okPage, dispatchFailPage]) attached)) =
       [''touchstart'', ''touchmove'', ''touchmove'', ''touchmove'']"
    unfolding run_kinds[of attached 7 "[okPage, okPage, okPage, okPage, dispatchFailPage]"
        touchPlatform, OF attached_fields(1,2) len5] r upto_0_4
    by (simp add: eventTypes_def touchEvents_def)
  from k have "length (newEvents attached
          (exec touchPlatform (Click 7 # map Timeout [okPage, okPage, okPage, okPage, dispatchFailPage]) attached)) = 4"
    using length_map[of "eventType \<circ> snd" "newEvents attached
          (exec touchPlatform (Click 7 # map Timeout [okPage, okPage, okPage, okPage, dispatchFailPage]) attached)"] by simp
  with k show ?thesis by simp
qed

end
